theory Spec2Isabelle
  imports Complex_Main
begin

section \<open>Data model\<close>

text \<open>
  The grasp simulation of \<^verbatim>\<open>src/vgn/simulation.py\<close> drives three libraries that are
  not part of the repository: the physics engine (\<^verbatim>\<open>pybullet\<close>, a process-wide server),
  a random generator (\<^verbatim>\<open>numpy\<close>) and a library of rotations and rigid transforms
  (\<^verbatim>\<open>robot_helpers.spatial\<close>). Each is a parameter of the model: a record of the
  functions the code calls, over an abstract type of engine worlds \<open>'w\<close>, generator
  states \<open>'r\<close> and rotations \<open>'q\<close>. A call that changes the engine takes the world
  and returns the new one. Python floats are read as real numbers.
\<close>

type_synonym vec3 = "real \<times> real \<times> real"

type_synonym quat = "real \<times> real \<times> real \<times> real"

fun vadd :: "vec3 \<Rightarrow> vec3 \<Rightarrow> vec3" where
  "vadd (a, b, c) (x, y, z) = (a + x, b + y, c + z)"

fun vsub :: "vec3 \<Rightarrow> vec3 \<Rightarrow> vec3" where
  "vsub (a, b, c) (x, y, z) = (a - x, b - y, c - z)"

fun vneg :: "vec3 \<Rightarrow> vec3" where
  "vneg (a, b, c) = (- a, - b, - c)"

text \<open>\<^verbatim>\<open>np.any(v < c)\<close> and \<^verbatim>\<open>np.any(v > c)\<close> on a vector of three numbers.\<close>

fun any_lt :: "vec3 \<Rightarrow> real \<Rightarrow> bool" where
  "any_lt (a, b, c) k = (a < k \<or> b < k \<or> c < k)"

fun any_gt :: "vec3 \<Rightarrow> real \<Rightarrow> bool" where
  "any_gt (a, b, c) k = (a > k \<or> b > k \<or> c > k)"

record 'q Transform =
  rotation :: 'q
  translation :: vec3

text \<open>
  A contact point of the engine is a tuple; the code reads its entry 2, the identifier
  of the second body. Entries 1 and 2 are kept.
\<close>

record contact =
  bodyUniqueIdA :: int
  bodyUniqueIdB :: int

text \<open>The calls of \<^verbatim>\<open>pybullet\<close> the code makes, with the arguments it passes.\<close>

record 'w bullet =
  stepSimulation :: "'w \<Rightarrow> 'w"
  saveState :: "'w \<Rightarrow> int \<times> 'w"
  restoreState :: "int \<Rightarrow> 'w \<Rightarrow> 'w"
  loadURDF :: "string \<Rightarrow> vec3 \<Rightarrow> quat \<Rightarrow> real \<Rightarrow> 'w \<Rightarrow> int \<times> 'w"
  removeBody :: "int \<Rightarrow> 'w \<Rightarrow> 'w"
  changeDynamics :: "int \<Rightarrow> int \<Rightarrow> real \<Rightarrow> 'w \<Rightarrow> 'w"
  resetBasePositionAndOrientation :: "int \<Rightarrow> vec3 \<Rightarrow> quat \<Rightarrow> 'w \<Rightarrow> 'w"
  getBasePositionAndOrientation :: "int \<Rightarrow> 'w \<Rightarrow> vec3 \<times> quat"
  changeConstraint :: "int \<Rightarrow> vec3 \<Rightarrow> quat \<Rightarrow> real \<Rightarrow> 'w \<Rightarrow> 'w"
  resetJointState :: "int \<Rightarrow> int \<Rightarrow> real \<Rightarrow> 'w \<Rightarrow> 'w"
  getJointState :: "int \<Rightarrow> int \<Rightarrow> 'w \<Rightarrow> real"
  setJointMotorControlArray :: "int \<Rightarrow> int list \<Rightarrow> real list \<Rightarrow> real list \<Rightarrow> 'w \<Rightarrow> 'w"
  getContactPoints :: "int \<Rightarrow> 'w \<Rightarrow> contact list"
  getAABB :: "int \<Rightarrow> 'w \<Rightarrow> vec3 \<times> vec3"

text \<open>
  The generator: \<^verbatim>\<open>rng.uniform(lo, hi)\<close> on numbers, \<^verbatim>\<open>rng.uniform(lo, hi, 2)\<close>,
  \<^verbatim>\<open>rng.uniform(lo, hi)\<close> on vectors of three bounds, and
  \<^verbatim>\<open>Rotation.random(random_state=rng)\<close>. Each draw returns the value and the
  generator's next state.
\<close>

record ('r, 'q) generator =
  uniform :: "real \<Rightarrow> real \<Rightarrow> 'r \<Rightarrow> real \<times> 'r"
  uniform_pair :: "real \<Rightarrow> real \<Rightarrow> 'r \<Rightarrow> (real \<times> real) \<times> 'r"
  uniform_vec :: "vec3 \<Rightarrow> vec3 \<Rightarrow> 'r \<Rightarrow> vec3 \<times> 'r"
  rotation_random :: "'r \<Rightarrow> 'q \<times> 'r"

text \<open>
  The spatial library: rotations from and to quaternions, from Euler angles
  (\<^verbatim>\<open>Rotation.from_euler("xyz", v)\<close>) and from a rotation vector, the identity rotation,
  and the product of two transforms (\<^verbatim>\<open>a * b\<close>).
\<close>

record 'q spatial =
  as_quat :: "'q \<Rightarrow> quat"
  from_quat :: "quat \<Rightarrow> 'q"
  from_euler :: "vec3 \<Rightarrow> 'q"
  from_rotvec :: "vec3 \<Rightarrow> 'q"
  rot_identity :: 'q
  tf_mul :: "'q Transform \<Rightarrow> 'q Transform \<Rightarrow> 'q Transform"

text \<open>\<^verbatim>\<open>Transform.identity()\<close> and \<^verbatim>\<open>Transform.t(v)\<close>.\<close>

definition tf_identity :: "'q spatial \<Rightarrow> 'q Transform" where
  "tf_identity G = \<lparr>rotation = rot_identity G, translation = (0, 0, 0)\<rparr>"

definition tf_t :: "'q spatial \<Rightarrow> vec3 \<Rightarrow> 'q Transform" where
  "tf_t G v = \<lparr>rotation = rot_identity G, translation = v\<rparr>"

record 'q ParallelJawGrasp =
  pose :: "'q Transform"
  width :: real

text \<open>
  The gripper object. Its fields are set by the constructor and never assigned again;
  what its methods change is the engine's world.
\<close>

record 'q PandaGripper =
  uid :: int
  fixed_joint_uid :: int
  max_width :: real
  max_depth :: real
  T_ee_com :: "'q Transform"

record 'q Scene =
  size :: real
  origin :: "'q Transform option"
  center :: "'q Transform option"
  support_uid :: int
  object_uids :: "int list"

text \<open>
  The session (\<^verbatim>\<open>GraspSim\<close>) with the engine's world. \<open>snapshot_id\<close> is \<open>None\<close>
  until \<^verbatim>\<open>save_state\<close> assigns the attribute. \<^verbatim>\<open>sleep\<close> only paces the wall clock
  and is left out.
\<close>

record ('w, 'r, 'q) GraspSim =
  world :: 'w
  rng :: 'r
  snapshot_id :: "int option"
  gripper :: "'q PandaGripper"
  scene :: "'q Scene"

datatype error = AttributeError | ValueError

text \<open>
  A call that may raise returns the exception with the state at the raise, or the
  value with the state at the return.
\<close>

type_synonym ('a, 's) result = "(error \<times> 's) + ('a \<times> 's)"

type_synonym metadata = "string \<rightharpoonup> int"

section \<open>The gripper\<close>

text \<open>\<^verbatim>\<open>GraspSim.step\<close> on the engine's world.\<close>

definition step :: "'w bullet \<Rightarrow> 'w \<Rightarrow> 'w" where
  "step P w = stepSimulation P w"

definition gripper_width :: "'w bullet \<Rightarrow> 'q PandaGripper \<Rightarrow> 'w \<Rightarrow> real" where
  "gripper_width P g w = getJointState P (uid g) 0 w + getJointState P (uid g) 1 w"

definition contacts :: "'w bullet \<Rightarrow> 'q PandaGripper \<Rightarrow> 'w \<Rightarrow> contact list" where
  "contacts P g w = getContactPoints P (uid g) w"

definition update_fixed_joint ::
  "'w bullet \<Rightarrow> 'q spatial \<Rightarrow> 'q PandaGripper \<Rightarrow> 'q Transform \<Rightarrow> 'w \<Rightarrow> 'w" where
  "update_fixed_joint P G g target w =
     changeConstraint P (fixed_joint_uid g) (translation target)
       (as_quat G (rotation target)) 50 w"

definition reset ::
  "'w bullet \<Rightarrow> 'q spatial \<Rightarrow> 'q PandaGripper \<Rightarrow> 'q Transform \<Rightarrow> real \<Rightarrow> 'w \<Rightarrow> 'w" where
  "reset P G g pose0 width0 w =
     (let pose1 = tf_mul G pose0 (T_ee_com g);
          w1 = resetBasePositionAndOrientation P (uid g) (translation pose1)
                 (as_quat G (rotation pose1)) w;
          w2 = update_fixed_joint P G g pose1 w1;
          w3 = resetJointState P (uid g) 0 (0.5 * width0) w2;
          w4 = resetJointState P (uid g) 1 (0.5 * width0) w3
      in step P w4)"

definition MAX_GRASP_FORCE :: real where
  "MAX_GRASP_FORCE = 5"

definition close_fingers :: "'w bullet \<Rightarrow> 'q PandaGripper \<Rightarrow> 'w \<Rightarrow> 'w" where
  "close_fingers P g w =
     (let w1 = setJointMotorControlArray P (uid g) [0, 1] [- 0.1, - 0.1]
                 [MAX_GRASP_FORCE, MAX_GRASP_FORCE] w
      in (step P ^^ 60) w1)"

text \<open>The target of iteration \<open>i\<close> of \<^verbatim>\<open>lift\<close>: \<^verbatim>\<open>pos + np.r_[0, 0, i * 1.0 / 60.0 * 0.1]\<close>.\<close>

definition lift_target :: "vec3 \<Rightarrow> nat \<Rightarrow> vec3" where
  "lift_target pos i = vadd pos (0, 0, real i * 1.0 / 60.0 * 0.1)"

definition lift :: "'w bullet \<Rightarrow> 'q spatial \<Rightarrow> 'q PandaGripper \<Rightarrow> 'w \<Rightarrow> 'w" where
  "lift P G g w =
     (let (pos, ori0) = getBasePositionAndOrientation P (uid g) w;
          ori = from_quat G ori0
      in fold (\<lambda>i w'. step P (update_fixed_joint P G g
                 \<lparr>rotation = ori, translation = lift_target pos i\<rparr> w'))
           [0..<60] w)"

section \<open>Grasp quality\<close>

text \<open>\<^verbatim>\<open>PhysicsMetric.quality\<close>: the label, the metadata dictionary, and the world it leaves.\<close>

definition quality ::
  "'w bullet \<Rightarrow> 'q spatial \<Rightarrow> 'q PandaGripper \<Rightarrow> 'q ParallelJawGrasp \<Rightarrow> 'w
     \<Rightarrow> (real \<times> metadata) \<times> 'w" where
  "quality P G g grasp w =
     (let w1 = reset P G g (pose grasp) (width grasp) w
      in if contacts P g w1 = [] then
           (let w2 = close_fingers P g w1;
                w3 = lift P G g w2;
                cs = contacts P g w3
            in if gripper_width P g w3 > 0.1 * max_width g \<and> cs \<noteq> []
               then ((1, [''object_uid'' \<mapsto> bodyUniqueIdB (hd cs)]), w3)
               else ((0, Map.empty), w3))
         else ((0, Map.empty), w1))"


section \<open>The session's snapshot\<close>

definition save_state :: "'w bullet \<Rightarrow> ('w, 'r, 'q) GraspSim \<Rightarrow> ('w, 'r, 'q) GraspSim" where
  "save_state P s =
     (let (i, w') = saveState P (world s) in s\<lparr>world := w', snapshot_id := Some i\<rparr>)"

text \<open>Reading \<^verbatim>\<open>self.snapshot_id\<close> before any \<^verbatim>\<open>save_state\<close> raises AttributeError.\<close>

definition restore_state ::
  "'w bullet \<Rightarrow> ('w, 'r, 'q) GraspSim \<Rightarrow> (unit, ('w, 'r, 'q) GraspSim) result" where
  "restore_state P s =
     (case snapshot_id s of
        None \<Rightarrow> Inl (AttributeError, s)
      | Some i \<Rightarrow> Inr ((), s\<lparr>world := restoreState P i (world s)\<rparr>))"

definition sim_step :: "'w bullet \<Rightarrow> ('w, 'r, 'q) GraspSim \<Rightarrow> ('w, 'r, 'q) GraspSim" where
  "sim_step P s = s\<lparr>world := step P (world s)\<rparr>"

section \<open>The robust metric\<close>

record robust_cfg =
  xyz :: vec3
  rpy :: vec3
  sample_count :: int

text \<open>
  The loop of \<^verbatim>\<open>RobustPhysicsMetric.__call__\<close>, with the number of iterations left.
  \<open>pose0\<close> and \<open>width0\<close> are read from the grasp before the loop.
\<close>

fun robust_loop ::
  "'w bullet \<Rightarrow> ('r, 'q) generator \<Rightarrow> 'q spatial \<Rightarrow> robust_cfg \<Rightarrow> 'q Transform \<Rightarrow> real
     \<Rightarrow> nat \<Rightarrow> ('w, 'r, 'q) GraspSim \<Rightarrow> (real \<times> metadata, ('w, 'r, 'q) GraspSim) result" where
  "robust_loop P N G c pose0 width0 0 s = Inr ((1, Map.empty), s)"
| "robust_loop P N G c pose0 width0 (Suc n) s =
     (let (e, r1) = uniform_vec N (vneg (rpy c)) (rpy c) (rng s);
          R_err = from_euler G e;
          (t_err, r2) = uniform_vec N (vneg (xyz c)) (xyz c) r1;
          grasp = \<lparr>pose = tf_mul G pose0 \<lparr>rotation = R_err, translation = t_err\<rparr>,
                   width = width0\<rparr>
      in case restore_state P (s\<lparr>rng := r2\<rparr>) of
           Inl x \<Rightarrow> Inl x
         | Inr (_, s1) \<Rightarrow>
             (let (res, w') = quality P G (gripper s1) grasp (world s1);
                  s2 = s1\<lparr>world := w'\<rparr>
              in if fst res = 0 then Inr ((0, Map.empty), s2)
                 else robust_loop P N G c pose0 width0 n s2))"

definition robust_call ::
  "'w bullet \<Rightarrow> ('r, 'q) generator \<Rightarrow> 'q spatial \<Rightarrow> robust_cfg \<Rightarrow> 'q ParallelJawGrasp
     \<Rightarrow> ('w, 'r, 'q) GraspSim \<Rightarrow> (real \<times> metadata, ('w, 'r, 'q) GraspSim) result" where
  "robust_call P N G c grasp s =
     robust_loop P N G c (pose grasp) (width grasp) (nat (sample_count c)) s"

section \<open>Scenes\<close>

definition LATERAL_FFRICITON :: real where
  "LATERAL_FFRICITON = 0.4"

definition support_urdf :: string where
  "support_urdf = ''assets/plane/model.urdf''"

definition load_urdf ::
  "'w bullet \<Rightarrow> 'q spatial \<Rightarrow> string \<Rightarrow> 'q Transform \<Rightarrow> real \<Rightarrow> 'w \<Rightarrow> int \<times> 'w" where
  "load_urdf P G urdf pose0 scaling w =
     loadURDF P urdf (translation pose0) (as_quat G (rotation pose0)) scaling w"

definition add_support ::
  "'w bullet \<Rightarrow> 'q spatial \<Rightarrow> 'q Transform \<Rightarrow> ('w, 'r, 'q) GraspSim \<Rightarrow> ('w, 'r, 'q) GraspSim" where
  "add_support P G pose0 s =
     (let (u, w') = load_urdf P G support_urdf pose0 0.3 (world s)
      in s\<lparr>world := w', scene := (scene s)\<lparr>support_uid := u\<rparr>\<rparr>)"

definition add_object ::
  "'w bullet \<Rightarrow> 'q spatial \<Rightarrow> string \<Rightarrow> 'q Transform \<Rightarrow> real \<Rightarrow> ('w, 'r, 'q) GraspSim
     \<Rightarrow> int \<times> ('w, 'r, 'q) GraspSim" where
  "add_object P G urdf pose0 scaling s =
     (let (u, w1) = load_urdf P G urdf pose0 scaling (world s);
          sc = (scene s)\<lparr>object_uids := object_uids (scene s) @ [u]\<rparr>;
          w2 = changeDynamics P u (- 1) LATERAL_FFRICITON w1
      in (u, s\<lparr>world := w2, scene := sc\<rparr>))"

definition remove_support :: "'w bullet \<Rightarrow> ('w, 'r, 'q) GraspSim \<Rightarrow> ('w, 'r, 'q) GraspSim" where
  "remove_support P s = s\<lparr>world := removeBody P (support_uid (scene s)) (world s)\<rparr>"

text \<open>
  \<^verbatim>\<open>list.remove(uid)\<close> deletes the first occurrence and raises ValueError when there is
  none; the body has been removed from the engine by then.
\<close>

definition remove_object ::
  "'w bullet \<Rightarrow> int \<Rightarrow> ('w, 'r, 'q) GraspSim \<Rightarrow> (unit, ('w, 'r, 'q) GraspSim) result" where
  "remove_object P u s =
     (let s1 = s\<lparr>world := removeBody P u (world s)\<rparr>
      in if u \<in> set (object_uids (scene s1))
         then Inr ((), s1\<lparr>scene := (scene s1)\<lparr>object_uids := remove1 u (object_uids (scene s1))\<rparr>\<rparr>)
         else Inl (ValueError, s1))"

text \<open>The loop of \<^verbatim>\<open>remove_all_objects\<close> runs over a copy of the list.\<close>

fun remove_each ::
  "'w bullet \<Rightarrow> int list \<Rightarrow> ('w, 'r, 'q) GraspSim \<Rightarrow> (unit, ('w, 'r, 'q) GraspSim) result" where
  "remove_each P [] s = Inr ((), s)"
| "remove_each P (u # us) s =
     (case remove_object P u s of
        Inl x \<Rightarrow> Inl x
      | Inr (_, s') \<Rightarrow> remove_each P us s')"

definition remove_all_objects ::
  "'w bullet \<Rightarrow> ('w, 'r, 'q) GraspSim \<Rightarrow> (unit, ('w, 'r, 'q) GraspSim) result" where
  "remove_all_objects P s = remove_each P (object_uids (scene s)) s"

definition clear ::
  "'w bullet \<Rightarrow> ('w, 'r, 'q) GraspSim \<Rightarrow> (unit, ('w, 'r, 'q) GraspSim) result" where
  "clear P s = remove_all_objects P (remove_support P s)"

definition wait_for_objects_to_rest ::
  "'w bullet \<Rightarrow> ('w, 'r, 'q) GraspSim \<Rightarrow> ('w, 'r, 'q) GraspSim" where
  "wait_for_objects_to_rest P s = s\<lparr>world := (step P ^^ 60) (world s)\<rparr>"

text \<open>
  The test of \<^verbatim>\<open>remove_outside_objects\<close> on one object: its position relative to the
  origin has a coordinate below 0 or above the size.
\<close>

definition outside :: "'w bullet \<Rightarrow> vec3 \<Rightarrow> real \<Rightarrow> int \<Rightarrow> 'w \<Rightarrow> bool" where
  "outside P o_t sz u w =
     (let xyz = vsub (fst (getBasePositionAndOrientation P u w)) o_t
      in any_lt xyz 0.0 \<or> any_gt xyz sz)"

text \<open>
  The loop of \<^verbatim>\<open>remove_outside_objects\<close> iterates over \<^verbatim>\<open>self.object_uids\<close> itself,
  the list \<^verbatim>\<open>remove_object\<close> shortens: Python's list iterator keeps an index \<open>i\<close>,
  stops when \<open>i\<close> reaches the current length, and otherwise yields the entry at \<open>i\<close>
  and advances. \<^verbatim>\<open>self.origin.translation\<close> raises AttributeError while the origin is
  None.
\<close>

function outside_loop ::
  "'w bullet \<Rightarrow> nat \<Rightarrow> ('w, 'r, 'q) GraspSim \<Rightarrow> (unit, ('w, 'r, 'q) GraspSim) result" where
  "outside_loop P i s =
     (if i < length (object_uids (scene s)) then
        (let u = object_uids (scene s) ! i in
         case origin (scene s) of
           None \<Rightarrow> Inl (AttributeError, s)
         | Some og \<Rightarrow>
             if outside P (translation og) (size (scene s)) u (world s) then
               (case remove_object P u s of
                  Inl x \<Rightarrow> Inl x
                | Inr (_, s') \<Rightarrow> outside_loop P (i + 1) s')
             else outside_loop P (i + 1) s)
      else Inr ((), s))"
  by pat_completeness auto
termination
proof (relation "measure (\<lambda>(P, i, s). length (object_uids (scene s)) - i)")
  show "wf (measure (\<lambda>(P, i, s). length (object_uids (scene s)) - i))"
    by simp
next
  fix P :: "'w bullet" and i :: nat and s :: "('w, 'r, 'q) GraspSim"
    and u og x2 x y
  assume "i < length (object_uids (scene s))"
    and "remove_object P u s = Inr x2" and "(x, y) = x2"
  then show "((P, i + 1, y), (P, i, s))
      \<in> measure (\<lambda>(P, i, s). length (object_uids (scene s)) - i)"
    by (auto simp: remove_object_def Let_def length_remove1 split: if_splits)
next
  fix P :: "'w bullet" and i :: nat and s :: "('w, 'r, 'q) GraspSim"
  assume "i < length (object_uids (scene s))"
  then show "((P, i + 1, s), (P, i, s))
      \<in> measure (\<lambda>(P, i, s). length (object_uids (scene s)) - i)"
    by simp
qed

declare outside_loop.simps [simp del]

definition remove_outside_objects ::
  "'w bullet \<Rightarrow> ('w, 'r, 'q) GraspSim \<Rightarrow> (unit, ('w, 'r, 'q) GraspSim) result" where
  "remove_outside_objects P s = outside_loop P 0 (wait_for_objects_to_rest P s)"


section \<open>The packed and the pile scene\<close>

text \<open>
  \<^verbatim>\<open>scalings\<close> is one float for every object, or a list; \<^verbatim>\<open>zip\<close> stops at the
  shorter of the two lists.
\<close>

datatype scalings = Uniform real | PerObject "real list"

definition scalings_list :: "scalings \<Rightarrow> string list \<Rightarrow> real list" where
  "scalings_list sc urdfs =
     (case sc of Uniform x \<Rightarrow> replicate (length urdfs) x | PerObject xs \<Rightarrow> xs)"

text \<open>The pose one placement attempt samples, before it is composed with the origin.\<close>

definition sample_local_pose ::
  "('r, 'q) generator \<Rightarrow> 'q spatial \<Rightarrow> real \<Rightarrow> real \<Rightarrow> 'r \<Rightarrow> 'q Transform \<times> 'r" where
  "sample_local_pose N G sz z_offset r =
     (let (yaw, r1) = uniform N 0 (2 * pi) r;
          local_ori = from_rotvec G (0, 0, yaw);
          ((a, b), r2) = uniform_pair N 0.2 0.8 r1;
          local_pos = (a * sz, b * sz, z_offset)
      in (\<lparr>rotation = local_ori, translation = local_pos\<rparr>, r2))"

text \<open>
  One attempt, up to the contact check: sample, reset the object's pose, step once.
\<close>

definition attempt ::
  "'w bullet \<Rightarrow> ('r, 'q) generator \<Rightarrow> 'q spatial \<Rightarrow> 'q Transform \<Rightarrow> int \<Rightarrow> real
     \<Rightarrow> ('w, 'r, 'q) GraspSim \<Rightarrow> ('w, 'r, 'q) GraspSim" where
  "attempt P N G origin0 u z_offset s =
     (let (local_pose, r2) = sample_local_pose N G (size (scene s)) z_offset (rng s);
          pose1 = tf_mul G origin0 local_pose;
          w1 = resetBasePositionAndOrientation P u (translation pose1)
                 (as_quat G (rotation pose1)) (world s)
      in sim_step P (s\<lparr>rng := r2, world := w1\<rparr>))"

text \<open>
  The inner \<^verbatim>\<open>for ... else\<close> of \<^verbatim>\<open>PackedScene.generate\<close>, with the number of attempts
  left: the \<^verbatim>\<open>else\<close> branch runs when the loop ends without \<^verbatim>\<open>break\<close>.
\<close>

fun place_attempts ::
  "'w bullet \<Rightarrow> ('r, 'q) generator \<Rightarrow> 'q spatial \<Rightarrow> 'q Transform \<Rightarrow> int \<Rightarrow> real \<Rightarrow> int
     \<Rightarrow> nat \<Rightarrow> ('w, 'r, 'q) GraspSim \<Rightarrow> (unit, ('w, 'r, 'q) GraspSim) result" where
  "place_attempts P N G origin0 u z_offset state_id 0 s = remove_object P u s"
| "place_attempts P N G origin0 u z_offset state_id (Suc n) s =
     (let s1 = attempt P N G origin0 u z_offset s
      in if getContactPoints P u (world s1) \<noteq> []
         then place_attempts P N G origin0 u z_offset state_id n
                (s1\<lparr>world := restoreState P state_id (world s1)\<rparr>)
         else Inr ((), s1))"

text \<open>The body of the outer loop, for one object.\<close>

definition place_object ::
  "'w bullet \<Rightarrow> ('r, 'q) generator \<Rightarrow> 'q spatial \<Rightarrow> 'q Transform \<Rightarrow> int
     \<Rightarrow> string \<times> real \<Rightarrow> ('w, 'r, 'q) GraspSim \<Rightarrow> (unit, ('w, 'r, 'q) GraspSim) result" where
  "place_object P N G origin0 max_attempts spec s =
     (let (u, s1) = add_object P G (fst spec) (tf_identity G) (snd spec) s;
          (lower, upper) = getAABB P u (world s1);
          z_offset = 0.5 * (snd (snd upper) - snd (snd lower)) + 0.002;
          (state_id, w2) = saveState P (world s1)
      in place_attempts P N G origin0 u z_offset state_id (nat max_attempts)
           (s1\<lparr>world := w2\<rparr>))"

fun place_all ::
  "'w bullet \<Rightarrow> ('r, 'q) generator \<Rightarrow> 'q spatial \<Rightarrow> 'q Transform \<Rightarrow> int
     \<Rightarrow> (string \<times> real) list \<Rightarrow> ('w, 'r, 'q) GraspSim
     \<Rightarrow> (unit, ('w, 'r, 'q) GraspSim) result" where
  "place_all P N G origin0 max_attempts [] s = Inr ((), s)"
| "place_all P N G origin0 max_attempts (spec # specs) s =
     (case place_object P N G origin0 max_attempts spec s of
        Inl x \<Rightarrow> Inl x
      | Inr (_, s') \<Rightarrow> place_all P N G origin0 max_attempts specs s')"

text \<open>The first three statements of both \<^verbatim>\<open>generate\<close> methods.\<close>

definition set_up ::
  "'w bullet \<Rightarrow> 'q spatial \<Rightarrow> 'q Transform \<Rightarrow> ('w, 'r, 'q) GraspSim \<Rightarrow> ('w, 'r, 'q) GraspSim" where
  "set_up P G origin0 s =
     (let sz = size (scene s);
          c = tf_mul G origin0 (tf_t G (0.5 * sz, 0.5 * sz, 0));
          s1 = s\<lparr>scene := (scene s)\<lparr>origin := Some origin0, center := Some c\<rparr>\<rparr>
      in add_support P G c s1)"

definition packed_generate ::
  "'w bullet \<Rightarrow> ('r, 'q) generator \<Rightarrow> 'q spatial \<Rightarrow> 'q Transform \<Rightarrow> string list \<Rightarrow> scalings
     \<Rightarrow> int \<Rightarrow> ('w, 'r, 'q) GraspSim \<Rightarrow> (unit, ('w, 'r, 'q) GraspSim) result" where
  "packed_generate P N G origin0 urdfs sc max_attempts s =
     (case place_all P N G origin0 max_attempts (zip urdfs (scalings_list sc urdfs))
             (set_up P G origin0 s) of
        Inl x \<Rightarrow> Inl x
      | Inr (_, s') \<Rightarrow> remove_outside_objects P s')"

text \<open>The loop of \<^verbatim>\<open>PileScene.generate\<close>.\<close>

fun drop_all ::
  "'w bullet \<Rightarrow> ('r, 'q) generator \<Rightarrow> 'q spatial \<Rightarrow> 'q Transform
     \<Rightarrow> (string \<times> real) list \<Rightarrow> ('w, 'r, 'q) GraspSim \<Rightarrow> ('w, 'r, 'q) GraspSim" where
  "drop_all P N G origin0 [] s = s"
| "drop_all P N G origin0 (spec # specs) s =
     (let (loc_ori, r1) = rotation_random N (rng s);
          sz = size (scene s);
          ((a, b), r2) = uniform_pair N (sz / 3) (2 * sz / 3) r1;
          pose1 = tf_mul G origin0 \<lparr>rotation = loc_ori, translation = (a, b, 0.25)\<rparr>;
          (u, s1) = add_object P G (fst spec) pose1 (snd spec) (s\<lparr>rng := r2\<rparr>)
      in drop_all P N G origin0 specs (wait_for_objects_to_rest P s1))"

definition pile_generate ::
  "'w bullet \<Rightarrow> ('r, 'q) generator \<Rightarrow> 'q spatial \<Rightarrow> 'q Transform \<Rightarrow> string list \<Rightarrow> scalings
     \<Rightarrow> ('w, 'r, 'q) GraspSim \<Rightarrow> (unit, ('w, 'r, 'q) GraspSim) result" where
  "pile_generate P N G origin0 urdfs sc s =
     (let s1 = set_up P G origin0 s;
          (box, w2) = load_urdf P G ''assets/box/model.urdf'' (tf_t G (0.02, 0.02, 0.05)) 1.3
                        (world s1);
          s3 = drop_all P N G origin0 (zip urdfs (scalings_list sc urdfs)) (s1\<lparr>world := w2\<rparr>)
      in remove_outside_objects P (s3\<lparr>world := removeBody P box (world s3)\<rparr>))"

section \<open>A recording engine\<close>

text \<open>
  An instance of the engine for evaluating the model on concrete inputs: its world is
  the list of calls received, newest first. Identifiers of bodies and of snapshots are
  counted up from 0. What the queries answer is given by three functions of the calls
  received so far.
\<close>

datatype call =
    StepSimulation
  | SaveState
  | RestoreState int
  | LoadURDF string vec3 quat real
  | RemoveBody int
  | ChangeDynamics int int real
  | ResetBase int vec3 quat
  | ChangeConstraint int vec3 quat real
  | ResetJointState int int real
  | SetJointMotorControlArray int "int list" "real list" "real list"

fun loads :: "call list \<Rightarrow> nat" where
  "loads [] = 0"
| "loads (LoadURDF f t q k # cs) = Suc (loads cs)"
| "loads (c # cs) = loads cs"

fun saves :: "call list \<Rightarrow> nat" where
  "saves [] = 0"
| "saves (SaveState # cs) = Suc (saves cs)"
| "saves (c # cs) = saves cs"

fun steps :: "call list \<Rightarrow> nat" where
  "steps [] = 0"
| "steps (StepSimulation # cs) = Suc (steps cs)"
| "steps (c # cs) = steps cs"

definition recorder ::
  "(call list \<Rightarrow> int \<Rightarrow> contact list) \<Rightarrow> (call list \<Rightarrow> int \<Rightarrow> int \<Rightarrow> real)
     \<Rightarrow> (call list \<Rightarrow> int \<Rightarrow> vec3 \<times> quat) \<Rightarrow> (call list) bullet" where
  "recorder cts jnt bpo =
     \<lparr>stepSimulation = (\<lambda>w. StepSimulation # w),
      saveState = (\<lambda>w. (int (saves w), SaveState # w)),
      restoreState = (\<lambda>i w. RestoreState i # w),
      loadURDF = (\<lambda>f t q k w. (int (loads w), LoadURDF f t q k # w)),
      removeBody = (\<lambda>u w. RemoveBody u # w),
      changeDynamics = (\<lambda>u l f w. ChangeDynamics u l f # w),
      resetBasePositionAndOrientation = (\<lambda>u t q w. ResetBase u t q # w),
      getBasePositionAndOrientation = (\<lambda>u w. bpo w u),
      changeConstraint = (\<lambda>c t q f w. ChangeConstraint c t q f # w),
      resetJointState = (\<lambda>u j v w. ResetJointState u j v # w),
      getJointState = (\<lambda>u j w. jnt w u j),
      setJointMotorControlArray = (\<lambda>u js vs fs w. SetJointMotorControlArray u js vs fs # w),
      getContactPoints = (\<lambda>u w. cts w u),
      getAABB = (\<lambda>u w. ((0, 0, 0), (0, 0, 0)))\<rparr>"

text \<open>A generator that returns the lower bound of every draw, and a spatial library on
  quaternions whose product adds the translations and keeps the left rotation.\<close>

definition low_generator :: "(unit, quat) generator" where
  "low_generator =
     \<lparr>uniform = (\<lambda>lo hi r. (lo, r)),
      uniform_pair = (\<lambda>lo hi r. ((lo, lo), r)),
      uniform_vec = (\<lambda>lo hi r. (lo, r)),
      rotation_random = (\<lambda>r. ((0, 0, 0, 1), r))\<rparr>"

definition flat_spatial :: "quat spatial" where
  "flat_spatial =
     \<lparr>as_quat = (\<lambda>q. q),
      from_quat = (\<lambda>q. q),
      from_euler = (\<lambda>v. (0, 0, 0, 1)),
      from_rotvec = (\<lambda>v. (0, 0, 0, 1)),
      rot_identity = (0, 0, 0, 1),
      tf_mul = (\<lambda>a b. \<lparr>rotation = rotation a,
                        translation = vadd (translation a) (translation b)\<rparr>)\<rparr>"

definition panda :: "quat PandaGripper" where
  "panda = \<lparr>uid = 0, fixed_joint_uid = 0, max_width = 0.08, max_depth = 0.05,
            T_ee_com = \<lparr>rotation = (0, 0, 0, 1), translation = (0, 0, - 0.025)\<rparr>\<rparr>"


fun closing :: "call list \<Rightarrow> bool" where
  "closing [] = False"
| "closing (SetJointMotorControlArray u js vs fs # cs) = True"
| "closing (ResetBase u t q # cs) = False"
| "closing (c # cs) = closing cs"

fun restores :: "call list \<Rightarrow> nat" where
  "restores [] = 0"
| "restores (RestoreState i # cs) = Suc (restores cs)"
| "restores (c # cs) = restores cs"

text \<open>The targets the mount constraint was given, oldest first.\<close>

fun targets :: "call list \<Rightarrow> vec3 list" where
  "targets [] = []"
| "targets (ChangeConstraint c t q f # cs) = targets cs @ [t]"
| "targets (c # cs) = targets cs"

text \<open>
  Answers for the queries. \<open>held\<close>: body 7 touches the gripper once the fingers have been
  driven since the last pose reset, in the first trial after a restore only. \<open>touching\<close>:
  body 7 always touches. \<open>half_open\<close>: each finger joint stands at 0.02.
\<close>

definition held :: "call list \<Rightarrow> int \<Rightarrow> contact list" where
  "held w u =
     (if closing w \<and> restores w < 2 then [\<lparr>bodyUniqueIdA = u, bodyUniqueIdB = 7\<rparr>] else [])"

definition touching :: "call list \<Rightarrow> int \<Rightarrow> contact list" where
  "touching w u = [\<lparr>bodyUniqueIdA = u, bodyUniqueIdB = 7\<rparr>]"

definition half_open :: "call list \<Rightarrow> int \<Rightarrow> int \<Rightarrow> real" where
  "half_open w u j = 0.02"

definition still :: "call list \<Rightarrow> int \<Rightarrow> vec3 \<times> quat" where
  "still w u = ((0, 0, 0), (0, 0, 0, 1))"

definition grasp0 :: "quat ParallelJawGrasp" where
  "grasp0 = \<lparr>pose = \<lparr>rotation = (0, 0, 0, 1), translation = (0.1, 0.1, 0.1)\<rparr>,
             width = 0.08\<rparr>"

definition scene0 :: "quat Scene" where
  "scene0 = \<lparr>size = 0.3, origin = None, center = None, support_uid = - 1, object_uids = []\<rparr>"

definition sim0 :: "(call list, unit, quat) GraspSim" where
  "sim0 = \<lparr>world = [], rng = (), snapshot_id = None, gripper = panda, scene = scene0\<rparr>"

definition cfg0 :: robust_cfg where
  "cfg0 = \<lparr>xyz = (0.005, 0.005, 0.005), rpy = (0.1, 0.1, 0.1), sample_count = 1\<rparr>"

section \<open>The robust metric as a sequence of trials\<close>

text \<open>
  The specification's reading of the robust metric, to be compared with \<open>robust_loop\<close>:
  one trial draws a rotational and a translational perturbation within the configured
  bounds, applies them to the candidate grasp, restores the snapshot and runs the
  physics test. A generator keeps within its bounds when every vector it draws lies
  between the lower and the upper bound it was given.
\<close>

fun in_box :: "vec3 \<Rightarrow> vec3 \<Rightarrow> vec3 \<Rightarrow> bool" where
  "in_box (a, b, c) (x, y, z) (u, v, w) =
     (a \<le> u \<and> u \<le> x \<and> b \<le> v \<and> v \<le> y \<and> c \<le> w \<and> w \<le> z)"

definition uniform_vec_within :: "('r, 'q) generator \<Rightarrow> bool" where
  "uniform_vec_within N =
     (\<forall>lo hi r. in_box lo hi lo \<longrightarrow> in_box lo hi (fst (uniform_vec N lo hi r)))"

definition draw_perturbation ::
  "('r, 'q) generator \<Rightarrow> robust_cfg \<Rightarrow> 'r \<Rightarrow> (vec3 \<times> vec3) \<times> 'r" where
  "draw_perturbation N c r =
     (let (e, r1) = uniform_vec N (vneg (rpy c)) (rpy c) r;
          (t, r2) = uniform_vec N (vneg (xyz c)) (xyz c) r1
      in ((e, t), r2))"

definition perturbed ::
  "'q spatial \<Rightarrow> 'q ParallelJawGrasp \<Rightarrow> vec3 \<times> vec3 \<Rightarrow> 'q ParallelJawGrasp" where
  "perturbed G grasp et =
     \<lparr>pose = tf_mul G (pose grasp) \<lparr>rotation = from_euler G (fst et), translation = snd et\<rparr>,
      width = width grasp\<rparr>"

definition trial ::
  "'w bullet \<Rightarrow> ('r, 'q) generator \<Rightarrow> 'q spatial \<Rightarrow> robust_cfg \<Rightarrow> 'q ParallelJawGrasp \<Rightarrow> int
     \<Rightarrow> ('w, 'r, 'q) GraspSim \<Rightarrow> (real \<times> metadata) \<times> ('w, 'r, 'q) GraspSim" where
  "trial P N G c grasp sid s =
     (let (et, r2) = draw_perturbation N c (rng s);
          (res, w') = quality P G (gripper s) (perturbed G grasp et)
                        (restoreState P sid (world s))
      in (res, s\<lparr>rng := r2, world := w'\<rparr>))"

definition trial_ok ::
  "'w bullet \<Rightarrow> ('r, 'q) generator \<Rightarrow> 'q spatial \<Rightarrow> robust_cfg \<Rightarrow> 'q ParallelJawGrasp \<Rightarrow> int
     \<Rightarrow> ('w, 'r, 'q) GraspSim \<Rightarrow> bool" where
  "trial_ok P N G c grasp sid s = (fst (fst (trial P N G c grasp sid s)) \<noteq> 0)"

definition trial_next ::
  "'w bullet \<Rightarrow> ('r, 'q) generator \<Rightarrow> 'q spatial \<Rightarrow> robust_cfg \<Rightarrow> 'q ParallelJawGrasp \<Rightarrow> int
     \<Rightarrow> ('w, 'r, 'q) GraspSim \<Rightarrow> ('w, 'r, 'q) GraspSim" where
  "trial_next P N G c grasp sid s = snd (trial P N G c grasp sid s)"

section \<open>Placement attempts, named\<close>

text \<open>
  For one object \<open>u\<close> of the packed scene: whether an attempt from state \<open>s\<close> ends
  with a contact, and the state the next attempt starts from after the snapshot
  \<open>state_id\<close> has been restored. A generator keeps within its bounds when both numbers
  of a pair it draws lie between the lower and the upper bound it was given.
\<close>

definition attempt_fails ::
  "'w bullet \<Rightarrow> ('r, 'q) generator \<Rightarrow> 'q spatial \<Rightarrow> 'q Transform \<Rightarrow> int \<Rightarrow> real
     \<Rightarrow> ('w, 'r, 'q) GraspSim \<Rightarrow> bool" where
  "attempt_fails P N G origin0 u z_offset s =
     (getContactPoints P u (world (attempt P N G origin0 u z_offset s)) \<noteq> [])"

definition attempt_back ::
  "'w bullet \<Rightarrow> ('r, 'q) generator \<Rightarrow> 'q spatial \<Rightarrow> 'q Transform \<Rightarrow> int \<Rightarrow> real \<Rightarrow> int
     \<Rightarrow> ('w, 'r, 'q) GraspSim \<Rightarrow> ('w, 'r, 'q) GraspSim" where
  "attempt_back P N G origin0 u z_offset state_id s =
     (attempt P N G origin0 u z_offset s)
       \<lparr>world := restoreState P state_id (world (attempt P N G origin0 u z_offset s))\<rparr>"

definition uniform_pair_within :: "('r, 'q) generator \<Rightarrow> bool" where
  "uniform_pair_within N =
     (\<forall>lo hi r. lo \<le> hi \<longrightarrow>
        lo \<le> fst (fst (uniform_pair N lo hi r)) \<and> fst (fst (uniform_pair N lo hi r)) \<le> hi \<and>
        lo \<le> snd (fst (uniform_pair N lo hi r)) \<and> snd (fst (uniform_pair N lo hi r)) \<le> hi)"

text \<open>
  Answers for the contact query of a placed object: \<open>busy_once\<close> reports a contact
  until the first restore.
\<close>

definition busy_once :: "call list \<Rightarrow> int \<Rightarrow> contact list" where
  "busy_once w u = (if restores w < 1 then [\<lparr>bodyUniqueIdA = u, bodyUniqueIdB = 7\<rparr>] else [])"

definition origin0 :: "quat Transform" where
  "origin0 = \<lparr>rotation = (0, 0, 0, 1), translation = (0, 0, 0)\<rparr>"

section \<open>Objects outside the scene, named\<close>

text \<open>
  The specification's footprint test, on a position relative to the origin: X and Y
  within 0 and the size. The cube adds the same bounds on Z.
\<close>

fun in_footprint :: "real \<Rightarrow> vec3 \<Rightarrow> bool" where
  "in_footprint sz (x, y, z) = (0 \<le> x \<and> x \<le> sz \<and> 0 \<le> y \<and> y \<le> sz)"

fun in_cube :: "real \<Rightarrow> vec3 \<Rightarrow> bool" where
  "in_cube sz (x, y, z) = (0 \<le> x \<and> x \<le> sz \<and> 0 \<le> y \<and> y \<le> sz \<and> 0 \<le> z \<and> z \<le> sz)"

definition rel_position :: "'w bullet \<Rightarrow> 'q Transform \<Rightarrow> int \<Rightarrow> 'w \<Rightarrow> vec3" where
  "rel_position P og u w = vsub (fst (getBasePositionAndOrientation P u w)) (translation og)"

text \<open>An engine in which removing one body leaves the pose of every other body.\<close>

definition keeps_other_poses :: "'w bullet \<Rightarrow> bool" where
  "keeps_other_poses P =
     (\<forall>u v w. u \<noteq> v \<longrightarrow>
        getBasePositionAndOrientation P v (removeBody P u w) =
        getBasePositionAndOrientation P v w)"

text \<open>
  Answers for the pose query: \<open>floating\<close> puts every body at (0.1, 0.1, 0.5),
  \<open>mixed\<close> puts the bodies 1 and 2 at (1, 1, 0) and every other body at (0.1, 0.1, 0.1).
\<close>

definition floating :: "call list \<Rightarrow> int \<Rightarrow> vec3 \<times> quat" where
  "floating w u = ((0.1, 0.1, 0.5), (0, 0, 0, 1))"

definition mixed :: "call list \<Rightarrow> int \<Rightarrow> vec3 \<times> quat" where
  "mixed w u = (if u = 1 \<or> u = 2 then ((1, 1, 0), (0, 0, 0, 1))
                else ((0.1, 0.1, 0.1), (0, 0, 0, 1)))"

definition sim_with :: "int list \<Rightarrow> (call list, unit, quat) GraspSim" where
  "sim_with us = sim0\<lparr>scene := scene0\<lparr>origin := Some origin0, object_uids := us\<rparr>\<rparr>"

(*DEFS_END*)

section \<open>Evaluation on the recording engine\<close>

lemmas recorder_eval =
  quality_def Let_def reset_def recorder_def flat_spatial_def panda_def grasp0_def step_def
  update_fixed_joint_def contacts_def held_def touching_def close_fingers_def lift_def
  lift_target_def gripper_width_def half_open_def still_def MAX_GRASP_FORCE_def
  eval_nat_numeral sim0_def scene0_def robust_call_def cfg0_def low_generator_def
  save_state_def restore_state_def

section \<open>The physics metric\<close>

text \<open>
  Claim C1. The physics metric first resets the gripper to the grasp's pose and width.
  If the gripper has a contact after the reset, the result is quality 0 with empty
  metadata, and the world is the one the reset left: the fingers were not closed and
  nothing was lifted. Otherwise the world is the one left by closing the fingers and
  lifting; the result is quality 1 with the second body of the first contact under
  \<open>object_uid\<close> when the width after the lift exceeds a tenth of the maximum width and
  a contact remains, and quality 0 with empty metadata in every other case.
\<close>

theorem quality_physics:
  "(contacts P g (reset P G g (pose grasp) (width grasp) w) \<noteq> [] \<longrightarrow>
      quality P G g grasp w = ((0, Map.empty), reset P G g (pose grasp) (width grasp) w)) \<and>
   (contacts P g (reset P G g (pose grasp) (width grasp) w) = [] \<longrightarrow>
      (let w3 = lift P G g (close_fingers P g (reset P G g (pose grasp) (width grasp) w));
           cs = contacts P g w3
       in snd (quality P G g grasp w) = w3 \<and>
          (gripper_width P g w3 > 0.1 * max_width g \<and> cs \<noteq> [] \<longrightarrow>
             fst (quality P G g grasp w) =
               (1, [''object_uid'' \<mapsto> bodyUniqueIdB (hd cs)])) \<and>
          (\<not> (gripper_width P g w3 > 0.1 * max_width g \<and> cs \<noteq> []) \<longrightarrow>
             fst (quality P G g grasp w) = (0, Map.empty))))"
  by (simp add: quality_def Let_def)

theorem quality_physics_witness:
  "fst (quality (recorder held half_open still) flat_spatial panda grasp0 []) =
     (1, [''object_uid'' \<mapsto> 7]) \<and>
   quality (recorder touching half_open still) flat_spatial panda grasp0 [] =
     ((0, Map.empty),
      reset (recorder touching half_open still) flat_spatial panda (pose grasp0)
        (width grasp0) [])"
proof -
  let ?R = "recorder held half_open still"
  let ?w1 = "reset ?R flat_spatial panda (pose grasp0) (width grasp0) []"
  let ?w3 = "lift ?R flat_spatial panda (close_fingers ?R panda ?w1)"
  have free: "contacts ?R panda ?w1 = []"
    by (simp add: recorder_eval)
  have grip: "gripper_width ?R panda ?w3 > 0.1 * max_width panda"
    by (simp add: gripper_width_def recorder_def half_open_def panda_def)
  have cs: "contacts ?R panda ?w3 = [\<lparr>bodyUniqueIdA = 0, bodyUniqueIdB = 7\<rparr>]"
    by (simp add: recorder_eval)
  have a: "fst (quality ?R flat_spatial panda grasp0 []) = (1, [''object_uid'' \<mapsto> 7])"
    using quality_physics [of ?R panda flat_spatial grasp0 "[]"] free grip cs
    by (simp add: Let_def)
  have hit: "contacts (recorder touching half_open still) panda
      (reset (recorder touching half_open still) flat_spatial panda (pose grasp0)
        (width grasp0) []) \<noteq> []"
    by (simp add: contacts_def recorder_def touching_def)
  show ?thesis
    using a quality_physics [of "recorder touching half_open still" panda flat_spatial grasp0 "[]"]
      hit
    by simp
qed


section \<open>The robust metric\<close>

lemma trial_next_snapshot:
  "snapshot_id (trial_next P N G c grasp sid s) = snapshot_id s"
  by (simp add: trial_next_def trial_def Let_def split: prod.splits)

lemma robust_loop_Suc:
  assumes "snapshot_id s = Some sid"
  shows "robust_loop P N G c (pose grasp) (width grasp) (Suc n) s =
     (if trial_ok P N G c grasp sid s
      then robust_loop P N G c (pose grasp) (width grasp) n (trial_next P N G c grasp sid s)
      else Inr ((0, Map.empty), trial_next P N G c grasp sid s))"
  using assms
  by (simp add: trial_ok_def trial_next_def trial_def draw_perturbation_def perturbed_def
      restore_state_def Let_def split: prod.splits)

lemma robust_loop_all_ok:
  assumes "snapshot_id s = Some sid"
    and "\<forall>k<n. trial_ok P N G c grasp sid ((trial_next P N G c grasp sid ^^ k) s)"
  shows "robust_loop P N G c (pose grasp) (width grasp) n s =
     Inr ((1, Map.empty), (trial_next P N G c grasp sid ^^ n) s)"
  using assms
proof (induction n arbitrary: s)
  case 0
  then show ?case by simp
next
  case (Suc n)
  have ok0: "trial_ok P N G c grasp sid s"
    using Suc.prems(2) by (metis funpow_0 zero_less_Suc)
  have rest: "\<forall>k<n. trial_ok P N G c grasp sid
      ((trial_next P N G c grasp sid ^^ k) (trial_next P N G c grasp sid s))"
  proof (intro allI impI)
    fix k assume "k < n"
    then have "trial_ok P N G c grasp sid ((trial_next P N G c grasp sid ^^ Suc k) s)"
      using Suc.prems(2)[rule_format, of "Suc k"] by (simp del: funpow.simps)
    then show "trial_ok P N G c grasp sid
      ((trial_next P N G c grasp sid ^^ k) (trial_next P N G c grasp sid s))"
      by (simp add: funpow_swap1)
  qed
  have snap: "snapshot_id (trial_next P N G c grasp sid s) = Some sid"
    using Suc.prems(1) by (simp add: trial_next_snapshot)
  show ?case
    using Suc.IH[OF snap rest] ok0
    by (simp only: robust_loop_Suc[OF Suc.prems(1)] if_True funpow_Suc_right o_apply)
qed

lemma robust_loop_first_fail:
  assumes "snapshot_id s = Some sid" and "k < n"
    and "\<forall>j<k. trial_ok P N G c grasp sid ((trial_next P N G c grasp sid ^^ j) s)"
    and "\<not> trial_ok P N G c grasp sid ((trial_next P N G c grasp sid ^^ k) s)"
  shows "robust_loop P N G c (pose grasp) (width grasp) n s =
     Inr ((0, Map.empty), (trial_next P N G c grasp sid ^^ Suc k) s)"
  using assms
proof (induction k arbitrary: s n)
  case 0
  then obtain n' where n: "n = Suc n'" by (cases n) auto
  from 0(4) have "\<not> trial_ok P N G c grasp sid s" by simp
  then show ?case
    unfolding n by (simp only: robust_loop_Suc[OF 0(1)] if_False funpow.simps o_apply id_apply)
next
  case (Suc k)
  then obtain n' where n: "n = Suc n'" and kn: "k < n'" by (cases n) auto
  have ok0: "trial_ok P N G c grasp sid s"
    using Suc.prems(3) by (metis funpow_0 zero_less_Suc)
  have snap: "snapshot_id (trial_next P N G c grasp sid s) = Some sid"
    using Suc.prems(1) by (simp add: trial_next_snapshot)
  have rest: "\<forall>j<k. trial_ok P N G c grasp sid
      ((trial_next P N G c grasp sid ^^ j) (trial_next P N G c grasp sid s))"
  proof (intro allI impI)
    fix j assume "j < k"
    then have "trial_ok P N G c grasp sid ((trial_next P N G c grasp sid ^^ Suc j) s)"
      using Suc.prems(3)[rule_format, of "Suc j"] by (simp del: funpow.simps)
    then show "trial_ok P N G c grasp sid
      ((trial_next P N G c grasp sid ^^ j) (trial_next P N G c grasp sid s))"
      by (simp add: funpow_swap1)
  qed
  have bad: "\<not> trial_ok P N G c grasp sid
      ((trial_next P N G c grasp sid ^^ k) (trial_next P N G c grasp sid s))"
    using Suc.prems(4) by (simp add: funpow_swap1)
  have "robust_loop P N G c (pose grasp) (width grasp) n' (trial_next P N G c grasp sid s) =
     Inr ((0, Map.empty), (trial_next P N G c grasp sid ^^ Suc k) (trial_next P N G c grasp sid s))"
    by (rule Suc.IH[OF snap kn rest bad])
  then show ?case
    using ok0 unfolding n
    by (simp only: robust_loop_Suc[OF Suc.prems(1)] if_True funpow_Suc_right o_apply)
qed

lemma robust_loop_one_all_ok:
  assumes "snapshot_id s = Some sid"
    and "robust_loop P N G c (pose grasp) (width grasp) n s = Inr ((1, md), s')"
  shows "\<forall>k<n. trial_ok P N G c grasp sid ((trial_next P N G c grasp sid ^^ k) s)"
proof (rule ccontr)
  assume "\<not> ?thesis"
  then have ex: "\<exists>k. k < n \<and> \<not> trial_ok P N G c grasp sid ((trial_next P N G c grasp sid ^^ k) s)"
    by blast
  define k where "k = (LEAST k. k < n \<and> \<not> trial_ok P N G c grasp sid ((trial_next P N G c grasp sid ^^ k) s))"
  have k: "k < n \<and> \<not> trial_ok P N G c grasp sid ((trial_next P N G c grasp sid ^^ k) s)"
    unfolding k_def using ex by (rule LeastI_ex)
  have least: "\<forall>j<k. trial_ok P N G c grasp sid ((trial_next P N G c grasp sid ^^ j) s)"
  proof (intro allI impI)
    fix j assume jk: "j < k"
    then have "\<not> (j < n \<and> \<not> trial_ok P N G c grasp sid ((trial_next P N G c grasp sid ^^ j) s))"
      unfolding k_def by (rule not_less_Least)
    with jk k show "trial_ok P N G c grasp sid ((trial_next P N G c grasp sid ^^ j) s)"
      by simp
  qed
  from robust_loop_first_fail[OF assms(1) _ least] k assms(2) show False
    by simp
qed

lemma draw_within:
  assumes "uniform_vec_within N" and "in_box (0, 0, 0) (rpy c) (rpy c)"
    and "in_box (0, 0, 0) (xyz c) (xyz c)"
  shows "in_box (vneg (rpy c)) (rpy c) (fst (fst (draw_perturbation N c r))) \<and>
         in_box (vneg (xyz c)) (xyz c) (snd (fst (draw_perturbation N c r)))"
proof -
  have a: "in_box (vneg (rpy c)) (rpy c) (vneg (rpy c))"
    using assms(2) by (cases "rpy c") auto
  have b: "in_box (vneg (xyz c)) (xyz c) (vneg (xyz c))"
    using assms(3) by (cases "xyz c") auto
  have e: "fst (fst (draw_perturbation N c r)) = fst (uniform_vec N (vneg (rpy c)) (rpy c) r)"
    by (simp add: draw_perturbation_def split_beta)
  have t: "snd (fst (draw_perturbation N c r)) =
      fst (uniform_vec N (vneg (xyz c)) (xyz c) (snd (uniform_vec N (vneg (rpy c)) (rpy c) r)))"
    by (simp add: draw_perturbation_def split_beta)
  show ?thesis
    unfolding e t using assms(1) a b unfolding uniform_vec_within_def by blast
qed

lemma robust_loop_mono:
  "robust_loop P N G c p0 w0 n s = Inr ((0, md), s') \<Longrightarrow> n \<le> m \<Longrightarrow>
   robust_loop P N G c p0 w0 m s = Inr ((0, md), s')"
proof (induction n arbitrary: s m)
  case 0
  then show ?case by simp
next
  case (Suc n)
  from Suc.prems(2) obtain m' where m: "m = Suc m'" and le: "n \<le> m'"
    by (cases m) auto
  show ?case
    using Suc.prems(1) Suc.IH[OF _ le] unfolding m
    by (auto simp: Let_def split: prod.splits sum.splits if_splits)
qed

text \<open>The loop reads the bounds of the configuration, not its sample count.\<close>

lemma robust_loop_cfg:
  "rpy c = rpy c' \<Longrightarrow> xyz c = xyz c' \<Longrightarrow>
   robust_loop P N G c p0 w0 n s = robust_loop P N G c' p0 w0 n s"
  by (induction n arbitrary: s) (auto simp: Let_def split: prod.splits sum.splits)

lemma robust_loop_md:
  "robust_loop P N G c p0 w0 n s = Inr ((q, md), s') \<Longrightarrow> md = Map.empty"
proof (induction n arbitrary: s)
  case 0
  then show ?case by simp
next
  case (Suc n)
  then show ?case
    by (auto simp: Let_def split: prod.splits sum.splits if_splits)
qed


text \<open>
  Claim C2. With a saved snapshot \<open>sid\<close> and \<open>n\<close> the configured sample count, the
  robust metric runs the trials of the specification in sequence, each on the state the
  previous one left: a trial draws its perturbation with the bounds \<open>\<plusminus>rpy\<close> and
  \<open>\<plusminus>xyz\<close>, applies it to the original grasp, restores snapshot \<open>sid\<close> and runs the
  physics test. When all \<open>n\<close> trials succeed the result is quality 1, after \<open>n\<close> trials.
  When trial \<open>k\<close> is the first to fail, the result is quality 0 with empty metadata and
  the state is the one that trial left: no later trial is run. Quality 1 is returned
  only if every one of the \<open>n\<close> trials succeeds. A generator that keeps within its
  bounds draws each perturbation within \<open>\<plusminus>rpy\<close> and \<open>\<plusminus>xyz\<close>.
\<close>

theorem robust_call_trials:
  assumes "snapshot_id s = Some sid"
  shows "((\<forall>k < nat (sample_count c).
             trial_ok P N G c grasp sid ((trial_next P N G c grasp sid ^^ k) s)) \<longrightarrow>
          robust_call P N G c grasp s =
            Inr ((1, Map.empty), (trial_next P N G c grasp sid ^^ nat (sample_count c)) s)) \<and>
         (\<forall>k < nat (sample_count c).
            (\<forall>j<k. trial_ok P N G c grasp sid ((trial_next P N G c grasp sid ^^ j) s)) \<and>
            \<not> trial_ok P N G c grasp sid ((trial_next P N G c grasp sid ^^ k) s) \<longrightarrow>
            robust_call P N G c grasp s =
              Inr ((0, Map.empty), (trial_next P N G c grasp sid ^^ Suc k) s)) \<and>
         (\<forall>md s'. robust_call P N G c grasp s = Inr ((1, md), s') \<longrightarrow>
            (\<forall>k < nat (sample_count c).
               trial_ok P N G c grasp sid ((trial_next P N G c grasp sid ^^ k) s))) \<and>
         (uniform_vec_within N \<and> in_box (0, 0, 0) (rpy c) (rpy c) \<and>
          in_box (0, 0, 0) (xyz c) (xyz c) \<longrightarrow>
            (\<forall>r. in_box (vneg (rpy c)) (rpy c) (fst (fst (draw_perturbation N c r))) \<and>
                 in_box (vneg (xyz c)) (xyz c) (snd (fst (draw_perturbation N c r)))))"
proof (intro conjI)
  show "(\<forall>k < nat (sample_count c).
             trial_ok P N G c grasp sid ((trial_next P N G c grasp sid ^^ k) s)) \<longrightarrow>
          robust_call P N G c grasp s =
            Inr ((1, Map.empty), (trial_next P N G c grasp sid ^^ nat (sample_count c)) s)"
    unfolding robust_call_def using robust_loop_all_ok[OF assms] by blast
  show "\<forall>k < nat (sample_count c).
            (\<forall>j<k. trial_ok P N G c grasp sid ((trial_next P N G c grasp sid ^^ j) s)) \<and>
            \<not> trial_ok P N G c grasp sid ((trial_next P N G c grasp sid ^^ k) s) \<longrightarrow>
            robust_call P N G c grasp s =
              Inr ((0, Map.empty), (trial_next P N G c grasp sid ^^ Suc k) s)"
    unfolding robust_call_def using robust_loop_first_fail[OF assms] by blast
  show "\<forall>md s'. robust_call P N G c grasp s = Inr ((1, md), s') \<longrightarrow>
            (\<forall>k < nat (sample_count c).
               trial_ok P N G c grasp sid ((trial_next P N G c grasp sid ^^ k) s))"
    unfolding robust_call_def using robust_loop_one_all_ok[OF assms] by blast
  show "uniform_vec_within N \<and> in_box (0, 0, 0) (rpy c) (rpy c) \<and>
          in_box (0, 0, 0) (xyz c) (xyz c) \<longrightarrow>
            (\<forall>r. in_box (vneg (rpy c)) (rpy c) (fst (fst (draw_perturbation N c r))) \<and>
                 in_box (vneg (xyz c)) (xyz c) (snd (fst (draw_perturbation N c r))))"
  proof (intro impI allI)
    fix r
    assume h: "uniform_vec_within N \<and> in_box (0, 0, 0) (rpy c) (rpy c) \<and>
      in_box (0, 0, 0) (xyz c) (xyz c)"
    show "in_box (vneg (rpy c)) (rpy c) (fst (fst (draw_perturbation N c r))) \<and>
      in_box (vneg (xyz c)) (xyz c) (snd (fst (draw_perturbation N c r)))"
      by (rule draw_within) (use h in simp_all)
  qed
qed


lemmas trial_eval =
  trial_ok_def trial_next_def trial_def draw_perturbation_def perturbed_def

theorem robust_call_trials_witness:
  "robust_call (recorder held half_open still) low_generator flat_spatial
     (cfg0\<lparr>sample_count := 3\<rparr>) grasp0 (save_state (recorder held half_open still) sim0) =
     Inr ((0, Map.empty),
       (trial_next (recorder held half_open still) low_generator flat_spatial
          (cfg0\<lparr>sample_count := 3\<rparr>) grasp0 0 ^^ 2)
         (save_state (recorder held half_open still) sim0)) \<and>
   robust_call (recorder held half_open still) low_generator flat_spatial cfg0 grasp0
     (save_state (recorder held half_open still) sim0) =
     Inr ((1, Map.empty),
       trial_next (recorder held half_open still) low_generator flat_spatial cfg0 grasp0 0
         (save_state (recorder held half_open still) sim0)) \<and>
   in_box (- 0.1, - 0.1, - 0.1) (0.1, 0.1, 0.1)
     (fst (fst (draw_perturbation low_generator cfg0 ())))"
proof -
  let ?R = "recorder held half_open still"
  let ?s = "save_state ?R sim0"
  let ?c = "cfg0\<lparr>sample_count := 3\<rparr>"
  have snap: "snapshot_id ?s = Some 0"
    by (simp add: save_state_def sim0_def recorder_def Let_def)
  have ok0: "trial_ok ?R low_generator flat_spatial ?c grasp0 0 ?s"
    by (simp add: trial_eval recorder_eval)
  have bad1: "\<not> trial_ok ?R low_generator flat_spatial ?c grasp0 0
      (trial_next ?R low_generator flat_spatial ?c grasp0 0 ?s)"
    by (simp add: trial_eval recorder_eval)
  have ok0': "trial_ok ?R low_generator flat_spatial cfg0 grasp0 0 ?s"
    by (simp add: trial_eval recorder_eval)
  have within: "uniform_vec_within (low_generator :: (unit, quat) generator)"
    by (simp add: uniform_vec_within_def low_generator_def)
  have three: "nat (sample_count ?c) = 3" and one: "nat (sample_count cfg0) = 1"
    by (simp_all add: cfg0_def)
  have a: "robust_call ?R low_generator flat_spatial ?c grasp0 ?s =
      Inr ((0, Map.empty), (trial_next ?R low_generator flat_spatial ?c grasp0 0 ^^ 2) ?s)"
    using robust_call_trials [OF snap, of ?c ?R low_generator flat_spatial grasp0, THEN conjunct2,
        THEN conjunct1, rule_format, of 1] ok0 bad1
    unfolding three by (simp add: numeral_2_eq_2)
  have b: "robust_call ?R low_generator flat_spatial cfg0 grasp0 ?s =
      Inr ((1, Map.empty), trial_next ?R low_generator flat_spatial cfg0 grasp0 0 ?s)"
    using robust_call_trials [OF snap, of cfg0 ?R low_generator flat_spatial grasp0, THEN conjunct1]
      ok0'
    unfolding one by simp
  have c: "in_box (- 0.1, - 0.1, - 0.1) (0.1, 0.1, 0.1)
      (fst (fst (draw_perturbation low_generator cfg0 ())))"
    using robust_call_trials [OF snap, of cfg0 ?R low_generator flat_spatial grasp0,
        THEN conjunct2, THEN conjunct2, THEN conjunct2] within
    by (simp add: cfg0_def)
  show ?thesis using a b c by blast
qed

text \<open>
  Claim C3. For one grasp, one state of the session (generator, snapshot and engine
  world) and two sample counts \<open>n < m\<close>: when the metric with \<open>n\<close> samples returns
  quality 0, the metric with \<open>m\<close> samples returns quality 0 as well, with the same
  metadata and the same final state.
\<close>

theorem robust_monotone:
  assumes "robust_call P N G (c\<lparr>sample_count := n\<rparr>) grasp s = Inr ((0, md), s')"
    and "n < m"
  shows "robust_call P N G (c\<lparr>sample_count := m\<rparr>) grasp s = Inr ((0, md), s')"
proof -
  have le: "nat n \<le> nat m"
    using assms(2) by simp
  have l: "robust_loop P N G (c\<lparr>sample_count := n\<rparr>) (pose grasp) (width grasp) (nat n) s =
      Inr ((0, md), s')"
    using assms(1) by (simp add: robust_call_def)
  have "robust_loop P N G (c\<lparr>sample_count := n\<rparr>) (pose grasp) (width grasp) (nat m) s =
      Inr ((0, md), s')"
    by (rule robust_loop_mono[OF l le])
  moreover have "robust_loop P N G (c\<lparr>sample_count := n\<rparr>) (pose grasp) (width grasp) k s =
      robust_loop P N G (c\<lparr>sample_count := m\<rparr>) (pose grasp) (width grasp) k s" for k
    by (rule robust_loop_cfg) simp_all
  ultimately show ?thesis
    by (simp add: robust_call_def)
qed


theorem robust_monotone_witness:
  "robust_call (recorder held half_open still) low_generator flat_spatial
     (cfg0\<lparr>sample_count := 3\<rparr>) grasp0 (save_state (recorder held half_open still) sim0) =
     Inr ((0, Map.empty),
       (trial_next (recorder held half_open still) low_generator flat_spatial
          (cfg0\<lparr>sample_count := 2\<rparr>) grasp0 0 ^^ 2)
         (save_state (recorder held half_open still) sim0))"
proof -
  let ?R = "recorder held half_open still"
  let ?s = "save_state ?R sim0"
  let ?c = "cfg0\<lparr>sample_count := 2\<rparr>"
  have snap: "snapshot_id ?s = Some 0"
    by (simp add: save_state_def sim0_def recorder_def Let_def)
  have ok0: "\<forall>j<1. trial_ok ?R low_generator flat_spatial ?c grasp0 0
      ((trial_next ?R low_generator flat_spatial ?c grasp0 0 ^^ j) ?s)"
    by (simp add: trial_eval recorder_eval)
  have bad1: "\<not> trial_ok ?R low_generator flat_spatial ?c grasp0 0
      ((trial_next ?R low_generator flat_spatial ?c grasp0 0 ^^ 1) ?s)"
    by (simp add: trial_eval recorder_eval)
  have "robust_loop ?R low_generator flat_spatial ?c (pose grasp0) (width grasp0) 2 ?s =
      Inr ((0, Map.empty), (trial_next ?R low_generator flat_spatial ?c grasp0 0 ^^ Suc 1) ?s)"
    by (rule robust_loop_first_fail[OF snap _ ok0 bad1]) simp
  then have two: "robust_call ?R low_generator flat_spatial ?c grasp0 ?s =
      Inr ((0, Map.empty), (trial_next ?R low_generator flat_spatial ?c grasp0 0 ^^ 2) ?s)"
    by (simp add: robust_call_def cfg0_def numeral_2_eq_2)
  show ?thesis
    by (rule robust_monotone[OF two]) simp
qed

text \<open>
  Claim C10. Whatever the robust metric returns, its metadata is empty; so it is when
  the quality is 1, although the trial behind it computed an identifier.
\<close>

theorem robust_metadata_empty:
  "robust_call P N G c grasp s = Inr ((q, md), s') \<Longrightarrow> md = Map.empty"
  unfolding robust_call_def by (rule robust_loop_md)

theorem robust_metadata_empty_witness:
  "fst (trial (recorder held half_open still) low_generator flat_spatial cfg0 grasp0 0
     (save_state (recorder held half_open still) sim0)) = (1, [''object_uid'' \<mapsto> 7]) \<and>
   (\<exists>s'. robust_call (recorder held half_open still) low_generator flat_spatial cfg0 grasp0
     (save_state (recorder held half_open still) sim0) = Inr ((1, Map.empty), s'))"
proof -
  let ?R = "recorder held half_open still"
  let ?s = "save_state ?R sim0"
  have t: "fst (trial ?R low_generator flat_spatial cfg0 grasp0 0 ?s) =
      (1, [''object_uid'' \<mapsto> 7])"
    by (simp add: trial_eval recorder_eval)
  have "\<exists>md s'. robust_call ?R low_generator flat_spatial cfg0 grasp0 ?s = Inr ((1, md), s')"
    by (simp add: recorder_eval)
  then obtain md s' where
    r: "robust_call ?R low_generator flat_spatial cfg0 grasp0 ?s = Inr ((1, md), s')"
    by blast
  have "md = Map.empty"
    by (rule robust_metadata_empty[OF r])
  with r t show ?thesis by blast
qed

section \<open>The session's snapshot handle\<close>

text \<open>
  Claim C7. The session has one snapshot handle. \<^verbatim>\<open>save_state\<close> sets it to the
  identifier the engine returned for this save, whatever it held before;
  \<^verbatim>\<open>restore_state\<close> asks the engine for the snapshot of the handle's current value,
  so of the latest save; a step leaves the handle as it is. On a session whose handle
  was never set, \<^verbatim>\<open>restore_state\<close> raises AttributeError and the engine is not called.
\<close>

theorem snapshot_handle:
  "snapshot_id (save_state P s) = Some (fst (saveState P (world s))) \<and>
   world (save_state P s) = snd (saveState P (world s)) \<and>
   restore_state P (save_state P s) =
     Inr ((), (save_state P s)\<lparr>world :=
       restoreState P (fst (saveState P (world s))) (snd (saveState P (world s)))\<rparr>) \<and>
   (\<forall>i. snapshot_id s = Some i \<longrightarrow>
      restore_state P s = Inr ((), s\<lparr>world := restoreState P i (world s)\<rparr>)) \<and>
   (snapshot_id s = None \<longrightarrow> restore_state P s = Inl (AttributeError, s)) \<and>
   snapshot_id (sim_step P s) = snapshot_id s"
  by (simp add: save_state_def restore_state_def sim_step_def Let_def split_beta)

theorem snapshot_handle_witness:
  "restore_state (recorder held half_open still) sim0 = Inl (AttributeError, sim0) \<and>
   restore_state (recorder held half_open still)
     (save_state (recorder held half_open still)
        (save_state (recorder held half_open still) sim0)) =
     Inr ((), \<lparr>world = [RestoreState 1, SaveState, SaveState], rng = (),
               snapshot_id = Some 1, gripper = panda, scene = scene0\<rparr>)"
proof -
  let ?R = "recorder held half_open still"
  have none: "snapshot_id sim0 = None"
    by (simp add: sim0_def)
  have a: "restore_state ?R sim0 = Inl (AttributeError, sim0)"
    using snapshot_handle [of ?R sim0] none by simp
  have two: "save_state ?R (save_state ?R sim0) =
      \<lparr>world = [SaveState, SaveState], rng = (), snapshot_id = Some 1, gripper = panda,
       scene = scene0\<rparr>"
    by (simp add: save_state_def sim0_def recorder_def Let_def)
  have "restore_state ?R (save_state ?R (save_state ?R sim0)) =
      Inr ((), (save_state ?R (save_state ?R sim0))\<lparr>world :=
        restoreState ?R 1 (world (save_state ?R (save_state ?R sim0)))\<rparr>)"
    using snapshot_handle [of ?R "save_state ?R (save_state ?R sim0)"] two by simp
  then show ?thesis
    using a unfolding two by (simp add: recorder_def)
qed

section \<open>The gripper's reset and lift\<close>

text \<open>
  Claim C8, as the code has it: for a commanded width above the maximum of 0.08 the
  reset neither clamps nor rejects. At width 0.1 the calls the engine receives (newest
  first) set both finger joints to 0.05, beyond the 0.04 that half the maximum width
  allows.
\<close>

theorem reset_wide_counterexample:
  "max_width panda < 0.1 \<and> 0.5 * max_width panda < 0.05 \<and>
   reset (recorder held half_open still) flat_spatial panda (pose grasp0) 0.1 [] =
     [StepSimulation, ResetJointState 0 1 0.05, ResetJointState 0 0 0.05,
      ChangeConstraint 0 (0.1, 0.1, 0.075) (0, 0, 0, 1) 50,
      ResetBase 0 (0.1, 0.1, 0.075) (0, 0, 0, 1)]"
  by (simp add: recorder_eval)

text \<open>
  Claim C8, amended. For every commanded width, also one above the maximum, the reset
  moves the base and the mount to the pose offset by the gripper's centre of mass, sets
  both finger joints to half the commanded width as given, and steps once.
\<close>

theorem reset_sets_half_width:
  "reset P G g pose0 width0 w =
     step P
       (resetJointState P (uid g) 1 (0.5 * width0)
          (resetJointState P (uid g) 0 (0.5 * width0)
             (update_fixed_joint P G g (tf_mul G pose0 (T_ee_com g))
                (resetBasePositionAndOrientation P (uid g)
                   (translation (tf_mul G pose0 (T_ee_com g)))
                   (as_quat G (rotation (tf_mul G pose0 (T_ee_com g)))) w))))"
  by (simp add: reset_def Let_def)

text \<open>
  Claim C4, evaluated. With the gripper's base at the origin, the lift steps 60 times
  and gives the mount 60 targets, the first at height 0 and the last at height 59/600:
  the ramp ends one increment below 0.1.
\<close>

theorem lift_ends_below:
  "steps (lift (recorder held half_open still) flat_spatial panda []) = 60 \<and>
   length (targets (lift (recorder held half_open still) flat_spatial panda [])) = 60 \<and>
   hd (targets (lift (recorder held half_open still) flat_spatial panda [])) = (0, 0, 0) \<and>
   last (targets (lift (recorder held half_open still) flat_spatial panda [])) =
     (0, 0, 59 / 600) \<and>
   (59 / 600 :: real) < 0.1"
  by (simp add: recorder_eval)


section \<open>The packed scene's placement loop\<close>

lemma attempt_scene [simp]:
  "scene (attempt P N G og u z s) = scene s"
  by (simp add: attempt_def sim_step_def Let_def split_beta)

lemma attempt_back_scene [simp]:
  "scene (attempt_back P N G og u z sid s) = scene s"
  by (simp add: attempt_back_def)

lemma attempt_back_pow_scene [simp]:
  "scene ((attempt_back P N G og u z sid ^^ k) s) = scene s"
  by (induction k) simp_all

lemma place_attempts_Suc:
  "place_attempts P N G og u z sid (Suc n) s =
     (if attempt_fails P N G og u z s
      then place_attempts P N G og u z sid n (attempt_back P N G og u z sid s)
      else Inr ((), attempt P N G og u z s))"
  by (simp add: attempt_fails_def attempt_back_def Let_def)

lemma place_attempts_first_free:
  assumes "k < n"
    and "\<forall>j<k. attempt_fails P N G og u z ((attempt_back P N G og u z sid ^^ j) s)"
    and "\<not> attempt_fails P N G og u z ((attempt_back P N G og u z sid ^^ k) s)"
  shows "place_attempts P N G og u z sid n s =
     Inr ((), attempt P N G og u z ((attempt_back P N G og u z sid ^^ k) s))"
  using assms
proof (induction k arbitrary: s n)
  case 0
  then obtain n' where n: "n = Suc n'" by (cases n) auto
  from 0(3) have "\<not> attempt_fails P N G og u z s" by simp
  then show ?case
    unfolding n by (simp only: place_attempts_Suc if_False funpow.simps id_apply)
next
  case (Suc k)
  then obtain n' where n: "n = Suc n'" and kn: "k < n'" by (cases n) auto
  have f0: "attempt_fails P N G og u z s"
    using Suc.prems(2)[rule_format, of 0] by simp
  have rest: "\<forall>j<k. attempt_fails P N G og u z
      ((attempt_back P N G og u z sid ^^ j) (attempt_back P N G og u z sid s))"
  proof (intro allI impI)
    fix j assume "j < k"
    then have "attempt_fails P N G og u z ((attempt_back P N G og u z sid ^^ Suc j) s)"
      using Suc.prems(2)[rule_format, of "Suc j"] by (simp del: funpow.simps)
    then show "attempt_fails P N G og u z
      ((attempt_back P N G og u z sid ^^ j) (attempt_back P N G og u z sid s))"
      by (simp add: funpow_swap1)
  qed
  have free: "\<not> attempt_fails P N G og u z
      ((attempt_back P N G og u z sid ^^ k) (attempt_back P N G og u z sid s))"
    using Suc.prems(3) by (simp add: funpow_swap1)
  have "place_attempts P N G og u z sid n' (attempt_back P N G og u z sid s) =
      Inr ((), attempt P N G og u z
        ((attempt_back P N G og u z sid ^^ k) (attempt_back P N G og u z sid s)))"
    by (rule Suc.IH[OF kn rest free])
  then show ?case
    using f0 unfolding n
    by (simp only: place_attempts_Suc if_True funpow_Suc_right o_apply)
qed

lemma place_attempts_exhausted:
  assumes "\<forall>j<n. attempt_fails P N G og u z ((attempt_back P N G og u z sid ^^ j) s)"
  shows "place_attempts P N G og u z sid n s =
     remove_object P u ((attempt_back P N G og u z sid ^^ n) s)"
  using assms
proof (induction n arbitrary: s)
  case 0
  then show ?case by simp
next
  case (Suc n)
  have f0: "attempt_fails P N G og u z s"
    using Suc.prems[rule_format, of 0] by simp
  have rest: "\<forall>j<n. attempt_fails P N G og u z
      ((attempt_back P N G og u z sid ^^ j) (attempt_back P N G og u z sid s))"
  proof (intro allI impI)
    fix j assume "j < n"
    then have "attempt_fails P N G og u z ((attempt_back P N G og u z sid ^^ Suc j) s)"
      using Suc.prems[rule_format, of "Suc j"] by (simp del: funpow.simps)
    then show "attempt_fails P N G og u z
      ((attempt_back P N G og u z sid ^^ j) (attempt_back P N G og u z sid s))"
      by (simp add: funpow_swap1)
  qed
  show ?case
    using Suc.IH[OF rest] f0
    by (simp only: place_attempts_Suc if_True funpow_Suc_right o_apply)
qed

lemma sample_local_pose_within:
  assumes "uniform_pair_within N" and "0 \<le> sz"
  shows "0.2 * sz \<le> fst (translation (fst (sample_local_pose N G sz z r))) \<and>
         fst (translation (fst (sample_local_pose N G sz z r))) \<le> 0.8 * sz \<and>
         0.2 * sz \<le> fst (snd (translation (fst (sample_local_pose N G sz z r)))) \<and>
         fst (snd (translation (fst (sample_local_pose N G sz z r)))) \<le> 0.8 * sz \<and>
         snd (snd (translation (fst (sample_local_pose N G sz z r)))) = z"
proof -
  define r1 where "r1 = snd (uniform N 0 (2 * pi) r)"
  define ab where "ab = fst (uniform_pair N 0.2 0.8 r1)"
  have t: "translation (fst (sample_local_pose N G sz z r)) = (fst ab * sz, snd ab * sz, z)"
    by (simp add: sample_local_pose_def ab_def r1_def Let_def split_beta)
  have "(0.2::real) \<le> 0.8" by simp
  with assms(1) have b: "0.2 \<le> fst ab \<and> fst ab \<le> 0.8 \<and> 0.2 \<le> snd ab \<and> snd ab \<le> 0.8"
    unfolding uniform_pair_within_def ab_def by blast
  have m: "a \<le> b \<Longrightarrow> a * sz \<le> b * sz" for a b :: real
    using assms(2) by (simp add: mult_right_mono)
  show ?thesis
    unfolding t using b m[of "0.2" "fst ab"] m[of "fst ab" "0.8"] m[of "0.2" "snd ab"]
      m[of "snd ab" "0.8"]
    by simp
qed


lemma place_attempts_returns:
  "u \<in> set (object_uids (scene s)) \<Longrightarrow> \<exists>s'. place_attempts P N G og u z sid n s = Inr ((), s')"
proof (induction n arbitrary: s)
  case 0
  then show ?case by (simp add: remove_object_def Let_def)
next
  case (Suc n)
  from Suc.prems have "u \<in> set (object_uids (scene (attempt_back P N G og u z sid s)))"
    by simp
  from Suc.IH[OF this] show ?case
    by (simp only: place_attempts_Suc) simp
qed

text \<open>
  Claim C6. For one object specification: the object is added as \<open>u\<close>, its vertical
  offset \<open>z\<close> is read from its bounding box, and the snapshot \<open>sid\<close> is saved before
  the first attempt. With \<open>n\<close> the number \<^verbatim>\<open>max_attempts\<close>: when attempt \<open>k < n\<close> is
  the first without contact, the result is the state that attempt left (pose applied,
  one step), with \<open>u\<close> in the scene, each earlier attempt having been followed by a
  restore of \<open>sid\<close>; no further attempt is made. When all \<open>n\<close> attempts end in contact,
  \<open>u\<close> is removed from the engine and from the scene's list. No exception is raised in
  either case. A generator that keeps within its bounds samples the X and Y offsets
  between 0.2 and 0.8 of the size, at height \<open>z\<close>.
\<close>

theorem place_object_attempts:
  assumes "add_object P G (fst spec) (tf_identity G) (snd spec) s = (u, s1)"
    and "z = 0.5 * (snd (snd (snd (getAABB P u (world s1))))
                     - snd (snd (fst (getAABB P u (world s1))))) + 0.002"
    and "saveState P (world s1) = (sid, w2)"
    and "s2 = s1\<lparr>world := w2\<rparr>"
  shows "(\<forall>k < nat max_attempts.
            (\<forall>j<k. attempt_fails P N G og u z ((attempt_back P N G og u z sid ^^ j) s2)) \<and>
            \<not> attempt_fails P N G og u z ((attempt_back P N G og u z sid ^^ k) s2) \<longrightarrow>
            place_object P N G og max_attempts spec s =
              Inr ((), attempt P N G og u z ((attempt_back P N G og u z sid ^^ k) s2)) \<and>
            object_uids (scene (attempt P N G og u z
                ((attempt_back P N G og u z sid ^^ k) s2))) =
              object_uids (scene s) @ [u]) \<and>
         ((\<forall>j < nat max_attempts.
             attempt_fails P N G og u z ((attempt_back P N G og u z sid ^^ j) s2)) \<longrightarrow>
            place_object P N G og max_attempts spec s =
              Inr ((), ((attempt_back P N G og u z sid ^^ nat max_attempts) s2)
                \<lparr>world := removeBody P u
                    (world ((attempt_back P N G og u z sid ^^ nat max_attempts) s2)),
                 scene := (scene s)\<lparr>object_uids :=
                    remove1 u (object_uids (scene s) @ [u])\<rparr>\<rparr>)) \<and>
         (\<exists>s'. place_object P N G og max_attempts spec s = Inr ((), s')) \<and>
         (uniform_pair_within N \<and> 0 \<le> size (scene s) \<longrightarrow>
            (\<forall>r. 0.2 * size (scene s)
                   \<le> fst (translation (fst (sample_local_pose N G (size (scene s)) z r))) \<and>
                 fst (translation (fst (sample_local_pose N G (size (scene s)) z r)))
                   \<le> 0.8 * size (scene s) \<and>
                 0.2 * size (scene s)
                   \<le> fst (snd (translation (fst (sample_local_pose N G (size (scene s)) z r)))) \<and>
                 fst (snd (translation (fst (sample_local_pose N G (size (scene s)) z r))))
                   \<le> 0.8 * size (scene s) \<and>
                 snd (snd (translation (fst (sample_local_pose N G (size (scene s)) z r)))) = z))"
proof -
  have po: "place_object P N G og max_attempts spec s =
      place_attempts P N G og u z sid (nat max_attempts) s2"
    using assms by (simp add: place_object_def Let_def split_beta)
  have sc1: "scene s1 = (scene s)\<lparr>object_uids := object_uids (scene s) @ [u]\<rparr>"
    using assms(1) by (auto simp: add_object_def Let_def split_beta)
  have sc2: "scene s2 = (scene s)\<lparr>object_uids := object_uids (scene s) @ [u]\<rparr>"
    using sc1 assms(4) by simp
  have mem: "u \<in> set (object_uids (scene s2))"
    by (simp add: sc2)
  have a: "\<forall>k < nat max_attempts.
            (\<forall>j<k. attempt_fails P N G og u z ((attempt_back P N G og u z sid ^^ j) s2)) \<and>
            \<not> attempt_fails P N G og u z ((attempt_back P N G og u z sid ^^ k) s2) \<longrightarrow>
            place_object P N G og max_attempts spec s =
              Inr ((), attempt P N G og u z ((attempt_back P N G og u z sid ^^ k) s2)) \<and>
            object_uids (scene (attempt P N G og u z
                ((attempt_back P N G og u z sid ^^ k) s2))) =
              object_uids (scene s) @ [u]"
    unfolding po using place_attempts_first_free[of _ "nat max_attempts" P N G og u z sid s2]
    by (simp add: sc2)
  have b: "(\<forall>j < nat max_attempts.
             attempt_fails P N G og u z ((attempt_back P N G og u z sid ^^ j) s2)) \<longrightarrow>
            place_object P N G og max_attempts spec s =
              Inr ((), ((attempt_back P N G og u z sid ^^ nat max_attempts) s2)
                \<lparr>world := removeBody P u
                    (world ((attempt_back P N G og u z sid ^^ nat max_attempts) s2)),
                 scene := (scene s)\<lparr>object_uids :=
                    remove1 u (object_uids (scene s) @ [u])\<rparr>\<rparr>)"
  proof
    assume all: "\<forall>j < nat max_attempts.
        attempt_fails P N G og u z ((attempt_back P N G og u z sid ^^ j) s2)"
    show "place_object P N G og max_attempts spec s =
        Inr ((), ((attempt_back P N G og u z sid ^^ nat max_attempts) s2)
          \<lparr>world := removeBody P u
              (world ((attempt_back P N G og u z sid ^^ nat max_attempts) s2)),
           scene := (scene s)\<lparr>object_uids :=
              remove1 u (object_uids (scene s) @ [u])\<rparr>\<rparr>)"
      unfolding po place_attempts_exhausted[OF all]
      by (simp add: remove_object_def Let_def sc2)
  qed
  have c: "\<exists>s'. place_object P N G og max_attempts spec s = Inr ((), s')"
    unfolding po by (rule place_attempts_returns[OF mem])
  have d: "uniform_pair_within N \<and> 0 \<le> size (scene s) \<longrightarrow>
            (\<forall>r. 0.2 * size (scene s)
                   \<le> fst (translation (fst (sample_local_pose N G (size (scene s)) z r))) \<and>
                 fst (translation (fst (sample_local_pose N G (size (scene s)) z r)))
                   \<le> 0.8 * size (scene s) \<and>
                 0.2 * size (scene s)
                   \<le> fst (snd (translation (fst (sample_local_pose N G (size (scene s)) z r)))) \<and>
                 fst (snd (translation (fst (sample_local_pose N G (size (scene s)) z r))))
                   \<le> 0.8 * size (scene s) \<and>
                 snd (snd (translation (fst (sample_local_pose N G (size (scene s)) z r)))) = z)"
    using sample_local_pose_within[of N "size (scene s)" G z] by blast
  from a b c d show ?thesis by blast
qed


lemmas place_eval =
  add_object_def load_urdf_def LATERAL_FFRICITON_def tf_identity_def attempt_def
  sample_local_pose_def sim_step_def attempt_fails_def attempt_back_def busy_once_def
  origin0_def

theorem place_object_attempts_witness:
  "place_object (recorder busy_once half_open still) low_generator flat_spatial origin0 2
     (''a.urdf'', 1) sim0 =
     Inr ((), sim0\<lparr>world :=
         [StepSimulation, ResetBase 0 (0.06, 0.06, 0.002) (0, 0, 0, 1), RestoreState 0,
          StepSimulation, ResetBase 0 (0.06, 0.06, 0.002) (0, 0, 0, 1), SaveState,
          ChangeDynamics 0 (- 1) 0.4, LoadURDF ''a.urdf'' (0, 0, 0) (0, 0, 0, 1) 1],
        scene := scene0\<lparr>object_uids := [0]\<rparr>\<rparr>) \<and>
   place_object (recorder touching half_open still) low_generator flat_spatial origin0 2
     (''a.urdf'', 1) sim0 =
     Inr ((), sim0\<lparr>world :=
         [RemoveBody 0, RestoreState 0,
          StepSimulation, ResetBase 0 (0.06, 0.06, 0.002) (0, 0, 0, 1), RestoreState 0,
          StepSimulation, ResetBase 0 (0.06, 0.06, 0.002) (0, 0, 0, 1), SaveState,
          ChangeDynamics 0 (- 1) 0.4, LoadURDF ''a.urdf'' (0, 0, 0) (0, 0, 0, 1) 1],
        scene := scene0\<lparr>object_uids := []\<rparr>\<rparr>)"
proof -
  let ?R = "recorder busy_once half_open still"
  let ?T = "recorder touching half_open still"
  let ?w1 = "[ChangeDynamics 0 (- 1) 0.4, LoadURDF ''a.urdf'' (0, 0, 0) (0, 0, 0, 1) 1]"
  let ?s1 = "sim0\<lparr>world := ?w1, scene := scene0\<lparr>object_uids := [0]\<rparr>\<rparr>"
  let ?s2 = "?s1\<lparr>world := SaveState # ?w1\<rparr>"
  have addR: "add_object ?R flat_spatial (fst (''a.urdf'', 1)) (tf_identity flat_spatial)
      (snd (''a.urdf'', 1)) sim0 = (0, ?s1)"
    by (simp add: place_eval recorder_eval)
  have zR: "0.002 = 0.5 * (snd (snd (snd (getAABB ?R 0 (world ?s1))))
      - snd (snd (fst (getAABB ?R 0 (world ?s1))))) + 0.002"
    by (simp add: recorder_def)
  have saveR: "saveState ?R (world ?s1) = (0, SaveState # ?w1)"
    by (simp add: recorder_def)
  have f0: "\<forall>j<1. attempt_fails ?R low_generator flat_spatial origin0 0 0.002
      ((attempt_back ?R low_generator flat_spatial origin0 0 0.002 0 ^^ j) ?s2)"
    by (simp add: place_eval recorder_eval)
  have free1: "\<not> attempt_fails ?R low_generator flat_spatial origin0 0 0.002
      ((attempt_back ?R low_generator flat_spatial origin0 0 0.002 0 ^^ 1) ?s2)"
    by (simp add: place_eval recorder_eval)
  have "place_object ?R low_generator flat_spatial origin0 2 (''a.urdf'', 1) sim0 =
      Inr ((), attempt ?R low_generator flat_spatial origin0 0 0.002
        ((attempt_back ?R low_generator flat_spatial origin0 0 0.002 0 ^^ 1) ?s2))"
    using place_object_attempts [OF addR zR saveR refl, of 2 low_generator origin0,
        THEN conjunct1, rule_format, of 1] f0 free1
    by simp
  then have a: "place_object ?R low_generator flat_spatial origin0 2 (''a.urdf'', 1) sim0 =
      Inr ((), sim0\<lparr>world :=
         [StepSimulation, ResetBase 0 (0.06, 0.06, 0.002) (0, 0, 0, 1), RestoreState 0,
          StepSimulation, ResetBase 0 (0.06, 0.06, 0.002) (0, 0, 0, 1), SaveState,
          ChangeDynamics 0 (- 1) 0.4, LoadURDF ''a.urdf'' (0, 0, 0) (0, 0, 0, 1) 1],
        scene := scene0\<lparr>object_uids := [0]\<rparr>\<rparr>)"
    by (simp add: place_eval recorder_eval)
  have addT: "add_object ?T flat_spatial (fst (''a.urdf'', 1)) (tf_identity flat_spatial)
      (snd (''a.urdf'', 1)) sim0 = (0, ?s1)"
    by (simp add: place_eval recorder_eval)
  have zT: "0.002 = 0.5 * (snd (snd (snd (getAABB ?T 0 (world ?s1))))
      - snd (snd (fst (getAABB ?T 0 (world ?s1))))) + 0.002"
    by (simp add: recorder_def)
  have saveT: "saveState ?T (world ?s1) = (0, SaveState # ?w1)"
    by (simp add: recorder_def)
  have fall: "\<forall>j < nat 2. attempt_fails ?T low_generator flat_spatial origin0 0 0.002
      ((attempt_back ?T low_generator flat_spatial origin0 0 0.002 0 ^^ j) ?s2)"
    by (simp add: attempt_fails_def recorder_def touching_def)
  have "place_object ?T low_generator flat_spatial origin0 2 (''a.urdf'', 1) sim0 =
      Inr ((), ((attempt_back ?T low_generator flat_spatial origin0 0 0.002 0 ^^ nat 2) ?s2)
        \<lparr>world := removeBody ?T 0
            (world ((attempt_back ?T low_generator flat_spatial origin0 0 0.002 0 ^^ nat 2) ?s2)),
         scene := (scene sim0)\<lparr>object_uids := remove1 0 (object_uids (scene sim0) @ [0])\<rparr>\<rparr>)"
    using place_object_attempts [OF addT zT saveT refl, of 2 low_generator origin0,
        THEN conjunct2, THEN conjunct1] fall
    by blast
  then have b: "place_object ?T low_generator flat_spatial origin0 2 (''a.urdf'', 1) sim0 =
      Inr ((), sim0\<lparr>world :=
         [RemoveBody 0, RestoreState 0,
          StepSimulation, ResetBase 0 (0.06, 0.06, 0.002) (0, 0, 0, 1), RestoreState 0,
          StepSimulation, ResetBase 0 (0.06, 0.06, 0.002) (0, 0, 0, 1), SaveState,
          ChangeDynamics 0 (- 1) 0.4, LoadURDF ''a.urdf'' (0, 0, 0) (0, 0, 0, 1) 1],
        scene := scene0\<lparr>object_uids := []\<rparr>\<rparr>)"
    by (simp add: place_eval recorder_eval)
  from a b show ?thesis by blast
qed


section \<open>Removing the objects outside the scene\<close>

lemma outside_iff_cube:
  "outside P (translation og) sz u w = (\<not> in_cube sz (rel_position P og u w))"
  by (cases "vsub (fst (getBasePositionAndOrientation P u w)) (translation og)")
     (auto simp: outside_def rel_position_def Let_def)

lemma remove_object_listed:
  "u \<in> set (object_uids (scene s)) \<Longrightarrow>
   remove_object P u s =
     Inr ((), s\<lparr>world := removeBody P u (world s),
                scene := (scene s)\<lparr>object_uids := remove1 u (object_uids (scene s))\<rparr>\<rparr>)"
  by (simp add: remove_object_def Let_def)

lemma outside_loop_done:
  "\<not> i < length (object_uids (scene s)) \<Longrightarrow> outside_loop P i s = Inr ((), s)"
  by (subst outside_loop.simps) simp

lemma outside_loop_keep:
  "i < length (object_uids (scene s)) \<Longrightarrow> origin (scene s) = Some og \<Longrightarrow>
   \<not> outside P (translation og) (size (scene s)) (object_uids (scene s) ! i) (world s) \<Longrightarrow>
   outside_loop P i s = outside_loop P (i + 1) s"
  by (subst outside_loop.simps) (simp add: Let_def)

lemma outside_loop_remove:
  "i < length (object_uids (scene s)) \<Longrightarrow> origin (scene s) = Some og \<Longrightarrow>
   outside P (translation og) (size (scene s)) (object_uids (scene s) ! i) (world s) \<Longrightarrow>
   outside_loop P i s =
     outside_loop P (i + 1)
       (s\<lparr>world := removeBody P (object_uids (scene s) ! i) (world s),
          scene := (scene s)\<lparr>object_uids :=
            remove1 (object_uids (scene s) ! i) (object_uids (scene s))\<rparr>\<rparr>)"
  by (subst outside_loop.simps) (simp add: Let_def remove_object_listed)

text \<open>
  What the loop keeps, from any index: the result is a return, its list is drawn from
  the list at the start, and an object the test accepts at the start is still listed.
\<close>

lemma outside_loop_keeps_inside:
  assumes "keeps_other_poses P" and "origin (scene s) = Some og"
  shows "\<exists>s'. outside_loop P i s = Inr ((), s') \<and>
           set (object_uids (scene s')) \<subseteq> set (object_uids (scene s)) \<and>
           (\<forall>v \<in> set (object_uids (scene s)).
              \<not> outside P (translation og) (size (scene s)) v (world s) \<longrightarrow>
              v \<in> set (object_uids (scene s')))"
  using assms(2)
proof (induction "length (object_uids (scene s)) - i" arbitrary: i s rule: less_induct)
  case less
  show ?case
  proof (cases "i < length (object_uids (scene s))")
    case False
    then show ?thesis
      by (simp add: outside_loop_done)
  next
    case True
    let ?u = "object_uids (scene s) ! i"
    show ?thesis
    proof (cases "outside P (translation og) (size (scene s)) ?u (world s)")
      case False
      have m: "length (object_uids (scene s)) - (i + 1) < length (object_uids (scene s)) - i"
        using True by simp
      from less.hyps[OF m less.prems] show ?thesis
        by (simp only: outside_loop_keep[OF True less.prems False])
    next
      case out: True
      let ?t = "s\<lparr>world := removeBody P ?u (world s),
          scene := (scene s)\<lparr>object_uids := remove1 ?u (object_uids (scene s))\<rparr>\<rparr>"
      have m: "length (object_uids (scene ?t)) - (i + 1) < length (object_uids (scene s)) - i"
        using True by (simp add: length_remove1)
      have og: "origin (scene ?t) = Some og"
        using less.prems by simp
      from less.hyps[OF m og] obtain s' where
        r: "outside_loop P (i + 1) ?t = Inr ((), s')"
        and sub: "set (object_uids (scene s')) \<subseteq> set (object_uids (scene ?t))"
        and keep: "\<forall>v \<in> set (object_uids (scene ?t)).
              \<not> outside P (translation og) (size (scene ?t)) v (world ?t) \<longrightarrow>
              v \<in> set (object_uids (scene s'))"
        by blast
      have sub': "set (object_uids (scene s')) \<subseteq> set (object_uids (scene s))"
        using sub set_remove1_subset[of ?u "object_uids (scene s)"] by auto
      have keep': "\<forall>v \<in> set (object_uids (scene s)).
              \<not> outside P (translation og) (size (scene s)) v (world s) \<longrightarrow>
              v \<in> set (object_uids (scene s'))"
      proof (intro ballI impI)
        fix v
        assume v: "v \<in> set (object_uids (scene s))"
          and ins: "\<not> outside P (translation og) (size (scene s)) v (world s)"
        from ins out have ne: "?u \<noteq> v" by auto
        then have pos: "getBasePositionAndOrientation P v (removeBody P ?u (world s)) =
            getBasePositionAndOrientation P v (world s)"
          using assms(1) unfolding keeps_other_poses_def by blast
        have "v \<in> set (object_uids (scene ?t))"
          using v ne by simp
        moreover have "\<not> outside P (translation og) (size (scene ?t)) v (world ?t)"
          using ins pos by (simp add: outside_def)
        ultimately show "v \<in> set (object_uids (scene s'))"
          using keep by blast
      qed
      show ?thesis
        using r sub' keep'
        by (simp only: outside_loop_remove[OF True less.prems out]) blast
    qed
  qed
qed

lemma outside_loop_skip:
  assumes "origin (scene s) = Some og" and "i + d \<le> length (object_uids (scene s))"
    and "\<forall>j<d. \<not> outside P (translation og) (size (scene s))
            (object_uids (scene s) ! (i + j)) (world s)"
  shows "outside_loop P i s = outside_loop P (i + d) s"
  using assms(2,3)
proof (induction d arbitrary: i)
  case 0
  then show ?case by simp
next
  case (Suc d)
  have lt: "i < length (object_uids (scene s))"
    using Suc.prems(1) by simp
  have here: "\<not> outside P (translation og) (size (scene s))
      (object_uids (scene s) ! i) (world s)"
    using Suc.prems(2)[rule_format, of 0] by simp
  have le: "(i + 1) + d \<le> length (object_uids (scene s))"
    using Suc.prems(1) by simp
  have rest: "\<forall>j<d. \<not> outside P (translation og) (size (scene s))
      (object_uids (scene s) ! ((i + 1) + j)) (world s)"
    using Suc.prems(2) by (metis Suc_eq_plus1 Suc_less_eq add_Suc_right add_Suc_shift)
  have "outside_loop P i s = outside_loop P (i + 1) s"
    by (rule outside_loop_keep[OF lt assms(1) here])
  also have "\<dots> = outside_loop P ((i + 1) + d) s"
    by (rule Suc.IH[OF le rest])
  finally show ?case by simp
qed


text \<open>
  Claim C5, as the code has it: an object whose X and Y lie inside the footprint is
  removed when its Z lies outside 0 and the size. Object 0 stands at (0.1, 0.1, 0.5) in
  a scene of size 0.3 with its origin at 0: after the 60 steps it is removed.
\<close>

theorem remove_outside_objects_counterexample:
  "in_footprint (size (scene (sim_with [0])))
     (rel_position (recorder touching half_open floating) origin0 0
        ((stepSimulation (recorder touching half_open floating) ^^ 60)
           (world (sim_with [0])))) \<and>
   remove_outside_objects (recorder touching half_open floating) (sim_with [0]) =
     Inr ((), (sim_with [])\<lparr>world := RemoveBody 0 # replicate 60 StepSimulation\<rparr>)"
  by (simp add: rel_position_def remove_outside_objects_def wait_for_objects_to_rest_def
      outside_loop.simps outside_def remove_object_def sim_with_def floating_def origin0_def
      recorder_eval)

text \<open>
  The loop runs over the list it shortens, so the entry after a removed one is never
  tested: of two neighbours that both lie outside, the second stays.
\<close>

lemma remove_outside_objects_skips:
  "outside (recorder touching half_open mixed) (translation origin0) 0.3 2
     (replicate 60 StepSimulation) \<and>
   remove_outside_objects (recorder touching half_open mixed) (sim_with [1, 2]) =
     Inr ((), (sim_with [2])\<lparr>world := RemoveBody 1 # replicate 60 StepSimulation\<rparr>)"
  by (simp add: remove_outside_objects_def wait_for_objects_to_rest_def
      outside_loop.simps outside_def remove_object_def sim_with_def mixed_def origin0_def
      recorder_eval)

text \<open>
  Claim C5, amended. In an engine where removing a body leaves the other bodies' poses,
  and with the scene's origin set: \<^verbatim>\<open>remove_outside_objects\<close> steps the simulation 60
  times and returns without exception; it removes objects of the scene only; every
  object whose position relative to the origin, after the 60 steps, has all three
  coordinates within 0 and the size is kept; and the first object of the list with a
  coordinate outside that range is removed.
\<close>

theorem remove_outside_objects_cube:
  assumes "keeps_other_poses P" and "origin (scene s) = Some og"
  shows "\<exists>s'. remove_outside_objects P s = Inr ((), s') \<and>
           set (object_uids (scene s')) \<subseteq> set (object_uids (scene s)) \<and>
           (\<forall>u \<in> set (object_uids (scene s)).
              in_cube (size (scene s))
                (rel_position P og u ((stepSimulation P ^^ 60) (world s))) \<longrightarrow>
              u \<in> set (object_uids (scene s'))) \<and>
           (\<forall>pre u post.
              object_uids (scene s) = pre @ u # post \<and> u \<notin> set post \<and>
              (\<forall>v \<in> set pre. in_cube (size (scene s))
                 (rel_position P og v ((stepSimulation P ^^ 60) (world s)))) \<and>
              \<not> in_cube (size (scene s))
                 (rel_position P og u ((stepSimulation P ^^ 60) (world s))) \<longrightarrow>
              u \<notin> set (object_uids (scene s')))"
proof -
  let ?w0 = "(stepSimulation P ^^ 60) (world s)"
  let ?s0 = "wait_for_objects_to_rest P s"
  have w0: "world ?s0 = ?w0"
    by (simp add: wait_for_objects_to_rest_def step_def [abs_def])
  have sc0: "scene ?s0 = scene s"
    by (simp add: wait_for_objects_to_rest_def)
  have og0: "origin (scene ?s0) = Some og"
    using assms(2) by (simp add: sc0)
  from outside_loop_keeps_inside[OF assms(1) og0, of 0] obtain s' where
    r: "outside_loop P 0 ?s0 = Inr ((), s')"
    and sub: "set (object_uids (scene s')) \<subseteq> set (object_uids (scene s))"
    and keep: "\<forall>v \<in> set (object_uids (scene s)).
        \<not> outside P (translation og) (size (scene s)) v ?w0 \<longrightarrow>
        v \<in> set (object_uids (scene s'))"
    unfolding sc0 w0 by blast
  have first: "u \<notin> set (object_uids (scene s'))"
    if l: "object_uids (scene s) = pre @ u # post" and np: "u \<notin> set post"
      and ins: "\<forall>v \<in> set pre. in_cube (size (scene s)) (rel_position P og v ?w0)"
      and out: "\<not> in_cube (size (scene s)) (rel_position P og u ?w0)"
    for pre u post
  proof -
    have npre: "u \<notin> set pre"
      using ins out by blast
    have len: "0 + length pre \<le> length (object_uids (scene ?s0))"
      by (simp add: sc0 l)
    have quiet: "\<forall>j<length pre. \<not> outside P (translation og) (size (scene ?s0))
        (object_uids (scene ?s0) ! (0 + j)) (world ?s0)"
      using ins by (simp add: sc0 w0 l nth_append outside_iff_cube)
    have lt: "length pre < length (object_uids (scene ?s0))"
      by (simp add: sc0 l)
    have at: "object_uids (scene s) ! length pre = u"
      by (simp add: l)
    have out': "outside P (translation og) (size (scene ?s0))
        (object_uids (scene ?s0) ! length pre) (world ?s0)"
      using out by (simp add: sc0 at w0 outside_iff_cube)
    let ?t = "?s0\<lparr>world := removeBody P u (world ?s0),
        scene := (scene ?s0)\<lparr>object_uids := remove1 u (object_uids (scene ?s0))\<rparr>\<rparr>"
    have "outside_loop P 0 ?s0 = outside_loop P (0 + length pre) ?s0"
      by (rule outside_loop_skip[OF og0 len quiet])
    also have "\<dots> = outside_loop P (length pre + 1) ?t"
      using outside_loop_remove[OF lt og0 out'] by (simp add: sc0 at)
    finally have chain: "outside_loop P 0 ?s0 = outside_loop P (length pre + 1) ?t" .
    have ogt: "origin (scene ?t) = Some og"
      using og0 by simp
    from outside_loop_keeps_inside[OF assms(1) ogt, of "length pre + 1"] obtain s'' where
      r'': "outside_loop P (length pre + 1) ?t = Inr ((), s'')"
      and sub'': "set (object_uids (scene s'')) \<subseteq> set (object_uids (scene ?t))"
      by blast
    have same: "s'' = s'"
      using r r'' chain by simp
    have "object_uids (scene ?t) = pre @ post"
      using npre by (simp add: sc0 l remove1_append)
    then have "u \<notin> set (object_uids (scene ?t))"
      using npre np by simp
    then show ?thesis
      using sub'' same by blast
  qed
  have keep': "\<forall>u \<in> set (object_uids (scene s)).
      in_cube (size (scene s)) (rel_position P og u ?w0) \<longrightarrow> u \<in> set (object_uids (scene s'))"
    using keep by (simp add: outside_iff_cube)
  have ret: "remove_outside_objects P s = Inr ((), s')"
    using r by (simp add: remove_outside_objects_def)
  show ?thesis
    using ret sub keep' first by blast
qed


theorem remove_outside_objects_cube_witness:
  "keeps_other_poses (recorder touching half_open mixed) \<and>
   (\<exists>s'. remove_outside_objects (recorder touching half_open mixed) (sim_with [0, 1, 3]) =
            Inr ((), s') \<and>
          0 \<in> set (object_uids (scene s')) \<and> 3 \<in> set (object_uids (scene s')) \<and>
          1 \<notin> set (object_uids (scene s')))"
proof -
  let ?R = "recorder touching half_open mixed"
  let ?s = "sim_with [0, 1, 3]"
  let ?w0 = "(stepSimulation ?R ^^ 60) (world ?s)"
  have frame: "keeps_other_poses ?R"
    by (simp add: keeps_other_poses_def recorder_def mixed_def)
  have og: "origin (scene ?s) = Some origin0"
    by (simp add: sim_with_def)
  have l: "object_uids (scene ?s) = [0] @ 1 # [3]"
    by (simp add: sim_with_def)
  have sz: "size (scene ?s) = 0.3"
    by (simp add: sim_with_def scene0_def)
  have p0: "rel_position ?R origin0 0 ?w0 = (0.1, 0.1, 0.1)"
    and p1: "rel_position ?R origin0 1 ?w0 = (1, 1, 0)"
    and p3: "rel_position ?R origin0 3 ?w0 = (0.1, 0.1, 0.1)"
    by (simp_all add: rel_position_def recorder_def mixed_def origin0_def)
  from remove_outside_objects_cube [OF frame og] obtain s' where
    r: "remove_outside_objects ?R ?s = Inr ((), s')"
    and keep: "\<forall>u \<in> set (object_uids (scene ?s)).
        in_cube (size (scene ?s)) (rel_position ?R origin0 u ?w0) \<longrightarrow>
        u \<in> set (object_uids (scene s'))"
    and first: "\<forall>pre u post.
        object_uids (scene ?s) = pre @ u # post \<and> u \<notin> set post \<and>
        (\<forall>v \<in> set pre. in_cube (size (scene ?s)) (rel_position ?R origin0 v ?w0)) \<and>
        \<not> in_cube (size (scene ?s)) (rel_position ?R origin0 u ?w0) \<longrightarrow>
        u \<notin> set (object_uids (scene s'))"
    by blast
  have k0: "0 \<in> set (object_uids (scene s'))"
    using keep[rule_format, of 0] by (simp add: l sz p0)
  have k3: "3 \<in> set (object_uids (scene s'))"
    using keep[rule_format, of 3] by (simp add: l sz p3)
  have g1: "1 \<notin> set (object_uids (scene s'))"
    using first[rule_format, of "[0]" 1 "[3]"] by (simp add: l sz p0 p1)
  show ?thesis
    using frame r k0 k3 g1 by blast
qed

end
